theory Spec2Isabelle
  imports Main
begin

section \<open>Strings, truthiness and the regular expressions of the source\<close>

text \<open>
  A JavaScript string is modelled as a \<^typ>\<open>string\<close>: the list of its code units, each
  below 256. An optional field (\<open>x?: T\<close>, \<open>T | undefined\<close>) is an \<^typ>\<open>'a option\<close>.
  A record object (\<open>Record<string, T>\<close>, an object literal used as a dictionary) is the
  list of its own entries in the order \<open>Object.entries\<close> lists them. A read \<open>obj[k]\<close>
  of a key that the object does not own finds the member of that name that the object
  inherits from \<open>Object.prototype\<close>, when there is one: the standard members, and those
  that the generator itself adds to \<open>Object.prototype\<close> (see \<open>addRoute\<close>), which are
  passed from call to call as a list of names. Field names carry a short prefix naming
  their interface (\<open>c_\<close> for ControllerMetadata, \<open>r_\<close> for RouteMetadata, ...), since
  two records cannot share a field name.
\<close>

definition charCode :: "char \<Rightarrow> nat" where
  "charCode c = of_char c"

text \<open>The class \<open>\w\<close> of a regular expression: \<open>[A-Za-z0-9_]\<close>.\<close>

definition isWordChar :: "char \<Rightarrow> bool" where
  "isWordChar c = (let n = charCode c in
     (48 \<le> n \<and> n \<le> 57) \<or> (65 \<le> n \<and> n \<le> 90) \<or> n = 95 \<or> (97 \<le> n \<and> n \<le> 122))"

text \<open>The class \<open>\s\<close> (and what \<open>trim\<close> removes), for code units below 256:
  tab, line feed, vertical tab, form feed, carriage return, space, no-break space.\<close>

definition isSpace :: "char \<Rightarrow> bool" where
  "isSpace c = (let n = charCode c in (9 \<le> n \<and> n \<le> 13) \<or> n = 32 \<or> n = 160)"

definition isSlash :: "char \<Rightarrow> bool" where
  "isSlash c = (c = CHR ''/'')"

text \<open>\<open>toLowerCase\<close> on one code unit below 256: the letters A-Z and the Latin-1 capitals
  (0xC0-0xDE without the multiplication sign 0xD7) move up by 32.\<close>

definition toLowerChar :: "char \<Rightarrow> char" where
  "toLowerChar c = (let n = charCode c in
     if (65 \<le> n \<and> n \<le> 90) \<or> (192 \<le> n \<and> n \<le> 222 \<and> n \<noteq> 215) then char_of (n + 32) else c)"

definition toLowerCase :: "string \<Rightarrow> string" where
  "toLowerCase s = map toLowerChar s"

text \<open>\<open>toUpperCase\<close> on one code unit: the letters a-z and the Latin-1 small letters
  0xE0-0xFE (without the division sign 0xF7) move down by 32, and the sharp s (0xDF)
  becomes the two letters \<open>SS\<close>. The two code units whose capital is a code unit above
  255 (0xB5, 0xFF) are left as they are: their capitals cannot be written in this string
  model.\<close>

definition toUpperChar :: "char \<Rightarrow> string" where
  "toUpperChar c = (let n = charCode c in
     if (97 \<le> n \<and> n \<le> 122) \<or> (224 \<le> n \<and> n \<le> 254 \<and> n \<noteq> 247) then [char_of (n - 32)]
     else if n = 223 then ''SS''
     else [c])"

definition toUpperCase :: "string \<Rightarrow> string" where
  "toUpperCase s = concat (map toUpperChar s)"

text \<open>A string is truthy when it is not empty; an optional string when it is defined and
  not empty. \<open>a || b\<close> on an optional string \<open>a\<close> and a string \<open>b\<close> is \<open>orElse a b\<close>.\<close>

definition truthy :: "string \<Rightarrow> bool" where
  "truthy s = (s \<noteq> [])"

definition truthyOpt :: "string option \<Rightarrow> bool" where
  "truthyOpt s = (case s of None \<Rightarrow> False | Some v \<Rightarrow> truthy v)"

definition orElse :: "string option \<Rightarrow> string \<Rightarrow> string" where
  "orElse a b = (case a of None \<Rightarrow> b | Some v \<Rightarrow> if truthy v then v else b)"

text \<open>\<open>Array.prototype.join\<close>.\<close>

fun join :: "string \<Rightarrow> string list \<Rightarrow> string" where
  "join sep [] = []"
| "join sep [x] = x"
| "join sep (x # y # ys) = x @ sep @ join sep (y # ys)"

text \<open>\<open>s.replace(/^\/+|\/+$/g, '')\<close>: the leading and the trailing run of slashes go.\<close>

definition stripSlashes :: "string \<Rightarrow> string" where
  "stripSlashes s = rev (dropWhile isSlash (rev (dropWhile isSlash s)))"

text \<open>\<open>s.replace(/\/+/g, '/')\<close>: every run of slashes becomes one slash.\<close>

fun collapseSlashes :: "string \<Rightarrow> string" where
  "collapseSlashes (c # d # cs) =
     (if isSlash c \<and> isSlash d then collapseSlashes (d # cs) else c # collapseSlashes (d # cs))"
| "collapseSlashes cs = cs"

text \<open>\<open>s.trim()\<close>.\<close>

definition trim :: "string \<Rightarrow> string" where
  "trim s = rev (dropWhile isSpace (rev (dropWhile isSpace s)))"

text \<open>\<open>s.replace(/['"]/g, '')\<close>.\<close>

definition removeQuotes :: "string \<Rightarrow> string" where
  "removeQuotes s = filter (\<lambda>c. c \<noteq> CHR 0x27 \<and> c \<noteq> CHR 0x22) s"

text \<open>\<open>s.replace(/:(\w+)/g, '{$1}')\<close>, scanning from the left: a colon followed by at
  least one word character is replaced, with the longest run of word characters after
  it, by that run in braces; every other character is copied.\<close>

function replaceColonParams :: "string \<Rightarrow> string" where
  "replaceColonParams [] = []"
| "replaceColonParams (c # cs) =
     (if c = CHR '':'' \<and> takeWhile isWordChar cs \<noteq> []
      then ''{'' @ takeWhile isWordChar cs @ ''}'' @ replaceColonParams (dropWhile isWordChar cs)
      else c # replaceColonParams cs)"
  by pat_completeness auto
termination
proof (relation "measure length")
  show "wf (measure length)" by simp
next
  fix c :: char and cs :: string
  have "length (dropWhile isWordChar cs) \<le> length cs" by (rule length_dropWhile_le)
  then show "(dropWhile isWordChar cs, c # cs) \<in> measure length" by simp
next
  fix c :: char and cs :: string
  show "(cs, c # cs) \<in> measure length" by simp
qed

text \<open>\<open>s.startsWith(p)\<close>.\<close>

definition startsWith :: "string \<Rightarrow> string \<Rightarrow> bool" where
  "startsWith s p = (take (length p) s = p)"

text \<open>\<open>Map.prototype.set\<close>: a key of the map keeps its place, a new key goes last.\<close>

fun setEntry :: "string \<Rightarrow> 'v \<Rightarrow> (string \<times> 'v) list \<Rightarrow> (string \<times> 'v) list" where
  "setEntry k v [] = [(k, v)]"
| "setEntry k v ((k', v') # es) = (if k' = k then (k, v) # es else (k', v') # setEntry k v es)"

text \<open>An array index: the canonical decimal text of an integer from 0 to \<open>2^32 - 2\<close>. An
  object enumerates its keys that are array indices first, in ascending order, and its
  other keys after them, in the order of their creation.\<close>

definition isDigit :: "char \<Rightarrow> bool" where
  "isDigit c = (48 \<le> charCode c \<and> charCode c \<le> 57)"

definition digitsValue :: "string \<Rightarrow> nat" where
  "digitsValue k = foldl (\<lambda>n c. 10 * n + (charCode c - 48)) 0 k"

definition isArrayIndex :: "string \<Rightarrow> bool" where
  "isArrayIndex k = (k \<noteq> [] \<and> list_all isDigit k \<and> (k = ''0'' \<or> hd k \<noteq> CHR ''0'')
     \<and> digitsValue k < 4294967295)"

text \<open>The place of a new array index among the entries of an object: behind the array
  indices that are smaller.\<close>

fun insertIndex :: "string \<Rightarrow> 'v \<Rightarrow> (string \<times> 'v) list \<Rightarrow> (string \<times> 'v) list" where
  "insertIndex k v [] = [(k, v)]"
| "insertIndex k v ((k', v') # es) =
     (if isArrayIndex k' \<and> digitsValue k' < digitsValue k then (k', v') # insertIndex k v es
      else (k, v) # (k', v') # es)"

text \<open>Storing an entry in an object under a key other than \<open>__proto__\<close>: an own key keeps
  its place; a new key that is an array index goes to its place among the array indices,
  any other new key goes last.\<close>

definition setProperty :: "string \<Rightarrow> 'v \<Rightarrow> (string \<times> 'v) list \<Rightarrow> (string \<times> 'v) list" where
  "setProperty k v es =
     (if map_of es k = None \<and> isArrayIndex k then insertIndex k v es else setEntry k v es)"

text \<open>\<open>obj[k] = v\<close> on an object literal, for an object \<open>v\<close>: the key
  \<open>__proto__\<close> is the inherited accessor, which makes \<open>v\<close> the prototype of the
  object and stores no entry; every other key stores an entry.\<close>

definition assignEntry :: "string \<Rightarrow> 'v \<Rightarrow> (string \<times> 'v) list \<Rightarrow> (string \<times> 'v) list" where
  "assignEntry k v es = (if k = ''__proto__'' then es else setProperty k v es)"

text \<open>\<open>Array.prototype.sort\<close> is stable: each element is inserted behind the elements
  that do not compare greater. The comparator returns a negative number, zero or a
  positive number. With no comparator, \<open>sort()\<close> compares strings by code units.\<close>

fun insertBy :: "('a \<Rightarrow> 'a \<Rightarrow> int) \<Rightarrow> 'a \<Rightarrow> 'a list \<Rightarrow> 'a list" where
  "insertBy cmp x [] = [x]"
| "insertBy cmp x (y # ys) = (if cmp x y < 0 then x # y # ys else y # insertBy cmp x ys)"

definition sortBy :: "('a \<Rightarrow> 'a \<Rightarrow> int) \<Rightarrow> 'a list \<Rightarrow> 'a list" where
  "sortBy cmp xs = foldl (\<lambda>acc x. insertBy cmp x acc) [] xs"

fun codeUnitLess :: "string \<Rightarrow> string \<Rightarrow> bool" where
  "codeUnitLess [] [] = False"
| "codeUnitLess [] (y # ys) = True"
| "codeUnitLess (x # xs) [] = False"
| "codeUnitLess (x # xs) (y # ys) =
     (charCode x < charCode y \<or> (charCode x = charCode y \<and> codeUnitLess xs ys))"

definition defaultCompare :: "string \<Rightarrow> string \<Rightarrow> int" where
  "defaultCompare a b = (if codeUnitLess a b then - 1 else if codeUnitLess b a then 1 else 0)"

text \<open>\<open>Array.from(new Set(xs))\<close>: the first occurrence of each element, in order.\<close>

fun uniq :: "'a list \<Rightarrow> 'a list \<Rightarrow> 'a list" where
  "uniq seen [] = seen"
| "uniq seen (x # xs) = (if x \<in> set seen then uniq seen xs else uniq (seen @ [x]) xs)"

section \<open>The metadata model\<close>

text \<open>
  The interfaces of \<open>interfaces/index.ts\<close>. Their declarations are not among the
  sources: the fields and their types are those that the scanner writes, the generators
  read and the tests of the generator build. Fields that no modelled function reads
  (\<open>example\<close>, \<open>filePath\<close>, \<open>guards\<close>) are left out. A number is only copied
  from a validator constraint into a schema, never computed with; it is an \<^typ>\<open>int\<close>
  here. The HTTP method and the location of a parameter are unions of string literals.
  The category of a controller is a string, but \<open>applyCategoryMapping\<close> can replace it
  by a value that is not one (see \<open>CategoryValue\<close> below): the type of the category is a
  parameter of the record, and it is \<^typ>\<open>string\<close> wherever the interface is met.
\<close>

datatype HttpMethod = GET | POST | PUT | PATCH | DELETE | OPTIONS | HEAD

fun methodName :: "HttpMethod \<Rightarrow> string" where
  "methodName GET = ''GET''"
| "methodName POST = ''POST''"
| "methodName PUT = ''PUT''"
| "methodName PATCH = ''PATCH''"
| "methodName DELETE = ''DELETE''"
| "methodName OPTIONS = ''OPTIONS''"
| "methodName HEAD = ''HEAD''"

datatype ParamLocation = InPath | InQuery | InHeader | InBody

record ValidatorConstraints =
  vc_type :: "string option"
  vc_format :: "string option"
  vc_minLength :: "int option"
  vc_maxLength :: "int option"
  vc_pattern :: "string option"
  vc_minimum :: "int option"
  vc_maximum :: "int option"
  vc_minItems :: "int option"
  vc_maxItems :: "int option"
  vc_enum :: "string list option"
  vc_required :: "bool option"

record ValidatorMetadata =
  v_name :: string
  v_args :: "string list"
  v_constraints :: "ValidatorConstraints option"

datatype TypeMetadata =
  TypeMetadata
    (t_type: string)
    (t_isPrimitive: bool)
    (t_isArray: bool)
    (t_isEnum: bool)
    (t_isOptional: bool)
    (t_format: "string option")
    (t_elementType: "TypeMetadata option")
    (t_enumValues: "string list option")
    (t_properties: "PropertyMetadata list option")
and PropertyMetadata =
  PropertyMetadata
    (p_name: string)
    (p_type: "TypeMetadata option")
    (p_required: bool)
    (p_description: "string option")
    (p_validators: "ValidatorMetadata list option")

record DtoMetadata =
  d_name :: string
  d_properties :: "PropertyMetadata list"
  d_description :: "string option"

record ParamMetadata =
  pm_name :: string
  pm_in :: ParamLocation
  pm_type :: "TypeMetadata option"
  pm_required :: bool
  pm_description :: "string option"

record RouteMetadata =
  r_name :: string
  r_httpMethod :: HttpMethod
  r_path :: string
  r_fullPath :: string
  r_description :: "string option"
  r_params :: "ParamMetadata list option"
  r_requestBody :: "DtoMetadata option"
  r_responseType :: "DtoMetadata option"
  r_isPublic :: bool

record 'category ControllerMetadata =
  c_name :: string
  c_path :: string
  c_category :: 'category
  c_version :: "string option"
  c_description :: "string option"
  c_routes :: "RouteMetadata list"

section \<open>The options (options.interface.ts)\<close>

record VersioningConfig =
  vg_enabled :: bool
  vg_prefix :: "string option"
  vg_fallback :: "string option"

record ServerConfig =
  srv_url :: string
  srv_description :: "string option"

record ContactConfig =
  ct_name :: "string option"
  ct_email :: "string option"
  ct_url :: "string option"

record AutoDocsOptions =
  o_title :: string
  o_version :: string
  o_description :: "string option"
  o_contact :: "ContactConfig option"
  o_globalPrefix :: "string option"
  o_servers :: "ServerConfig list option"
  o_categoryMapping :: "(string \<times> string) list option"
  o_includeSecurity :: "bool option"
  o_versioning :: "VersioningConfig option"
  o_baseServerURL :: "string option"

text \<open>\<open>options.versioning?.enabled\<close>.\<close>

definition versioningEnabled :: "AutoDocsOptions \<Rightarrow> bool" where
  "versioningEnabled options = (case o_versioning options of None \<Rightarrow> False | Some v \<Rightarrow> vg_enabled v)"

section \<open>The specification document (openapi.interface.ts)\<close>

text \<open>The declarations of \<open>interfaces/openapi.interface.ts\<close> are not among the sources
  either: the objects have the fields that the generator writes.\<close>

record SchemaFields =
  s_type :: "string option"
  s_format :: "string option"
  s_enum :: "string list option"
  s_required :: "string list option"
  s_description :: "string option"
  s_minLength :: "int option"
  s_maxLength :: "int option"
  s_pattern :: "string option"
  s_minimum :: "int option"
  s_maximum :: "int option"
  s_minItems :: "int option"
  s_maxItems :: "int option"

text \<open>A SchemaObject: its scalar fields, its \<open>items\<close> and its \<open>properties\<close>.\<close>

datatype SchemaObject =
  SchemaObject
    (s_fields: SchemaFields)
    (s_items: "SchemaObject option")
    (s_properties: "(string \<times> SchemaObject) list option")

definition emptyFields :: SchemaFields where
  "emptyFields = \<lparr> s_type = None, s_format = None, s_enum = None, s_required = None,
     s_description = None, s_minLength = None, s_maxLength = None, s_pattern = None,
     s_minimum = None, s_maximum = None, s_minItems = None, s_maxItems = None \<rparr>"

record ParameterObject =
  po_name :: string
  po_in :: ParamLocation
  po_required :: bool
  po_schema :: SchemaObject
  po_description :: "string option"

record ResponseObject =
  rs_description :: string
  rs_content :: "(string \<times> SchemaObject) list option"

record RequestBodyObject =
  rb_required :: bool
  rb_content :: "(string \<times> SchemaObject) list"

record OperationObject =
  op_summary :: string
  op_description :: "string option"
  op_tags :: "string list option"
  op_operationId :: string
  op_parameters :: "ParameterObject list option"
  op_responses :: "(string \<times> ResponseObject) list"
  op_security :: "(string \<times> string list) list list option"
  op_requestBody :: "RequestBodyObject option"

record PathItemObject =
  pi_get :: "OperationObject option"
  pi_post :: "OperationObject option"
  pi_put :: "OperationObject option"
  pi_patch :: "OperationObject option"
  pi_delete :: "OperationObject option"
  pi_options :: "OperationObject option"
  pi_head :: "OperationObject option"

definition emptyPathItem :: PathItemObject where
  "emptyPathItem = \<lparr> pi_get = None, pi_post = None, pi_put = None, pi_patch = None,
     pi_delete = None, pi_options = None, pi_head = None \<rparr>"

record TagObject =
  tag_name :: string
  tag_description :: string

record InfoObject =
  i_title :: string
  i_version :: string
  i_description :: string
  i_contact :: "ContactConfig option"

record SecuritySchemeObject =
  ss_type :: string
  ss_scheme :: string
  ss_bearerFormat :: string
  ss_description :: string

record ComponentsObject =
  co_schemas :: "(string \<times> SchemaObject) list"
  co_securitySchemes :: "(string \<times> SecuritySchemeObject) list option"

record OpenApiSpec =
  oa_openapi :: string
  oa_info :: InfoObject
  oa_servers :: "ServerConfig list"
  oa_tags :: "TagObject list"
  oa_paths :: "(string \<times> PathItemObject) list"
  oa_components :: ComponentsObject

section \<open>OpenApiGenerator (generators/openapi-generator.ts)\<close>

text \<open>
  \<open>generate\<close> clears the two maps of the class (\<open>schemas\<close>, \<open>tags\<close>) before it reads
  them, so its result does not depend on the fields of the class. Nothing ever writes to
  \<open>schemas\<close>. The one state that the generator reads and writes is \<open>Object.prototype\<close>,
  in \<open>generatePaths\<close>; it is passed explicitly.
\<close>

subsection \<open>combinePaths and the path of a route\<close>

definition combinePaths :: "string list \<Rightarrow> string" where
  "combinePaths segments =
     join ''/'' (filter truthy (map stripSlashes (filter truthy segments)))"

text \<open>\<open>options.versioning.prefix\<close> and \<open>options.versioning.fallback\<close>.\<close>

definition versioningPrefix :: "AutoDocsOptions \<Rightarrow> string option" where
  "versioningPrefix options = Option.bind (o_versioning options) vg_prefix"

definition versioningFallback :: "AutoDocsOptions \<Rightarrow> string option" where
  "versioningFallback options = Option.bind (o_versioning options) vg_fallback"

text \<open>The variable \<open>fullPath\<close> of \<open>generatePaths\<close>, for one controller and one route,
  as the three-way choice by the versioning options assigns it.\<close>

definition combinedPath :: "AutoDocsOptions \<Rightarrow> string ControllerMetadata \<Rightarrow> RouteMetadata \<Rightarrow> string" where
  "combinedPath options controller route =
     (if versioningEnabled options \<and> truthyOpt (c_version controller)
      then combinePaths [orElse (versioningPrefix options) ''/api'',
             orElse (c_version controller) [], c_path controller, r_path route]
      else if versioningEnabled options \<and> truthyOpt (versioningFallback options)
      then combinePaths [orElse (versioningFallback options) [], c_path controller, r_path route]
      else combinePaths [orElse (o_globalPrefix options) [], c_path controller, r_path route])"

text \<open>The same variable after \<open>fullPath = fullPath.replace(/:(\w+)/g, '{$1}')\<close>: the key
  of the route in the paths.\<close>

definition fullPath :: "AutoDocsOptions \<Rightarrow> string ControllerMetadata \<Rightarrow> RouteMetadata \<Rightarrow> string" where
  "fullPath options controller route = replaceColonParams (combinedPath options controller route)"

subsection \<open>Schemas\<close>

definition applyValidatorConstraints :: "SchemaFields \<Rightarrow> ValidatorMetadata \<Rightarrow> SchemaFields" where
  "applyValidatorConstraints schema validator =
     (case v_constraints validator of
        None \<Rightarrow> schema
      | Some cs \<Rightarrow>
          (let s1 = (if truthyOpt (vc_type cs) then schema\<lparr>s_type := vc_type cs\<rparr> else schema);
               s2 = (if truthyOpt (vc_format cs) then s1\<lparr>s_format := vc_format cs\<rparr> else s1);
               s3 = (if vc_minLength cs \<noteq> None then s2\<lparr>s_minLength := vc_minLength cs\<rparr> else s2);
               s4 = (if vc_maxLength cs \<noteq> None then s3\<lparr>s_maxLength := vc_maxLength cs\<rparr> else s3);
               s5 = (if truthyOpt (vc_pattern cs) then s4\<lparr>s_pattern := vc_pattern cs\<rparr> else s4);
               s6 = (if vc_minimum cs \<noteq> None then s5\<lparr>s_minimum := vc_minimum cs\<rparr> else s5);
               s7 = (if vc_maximum cs \<noteq> None then s6\<lparr>s_maximum := vc_maximum cs\<rparr> else s6);
               s8 = (if vc_minItems cs \<noteq> None then s7\<lparr>s_minItems := vc_minItems cs\<rparr> else s7);
               s9 = (if vc_maxItems cs \<noteq> None then s8\<lparr>s_maxItems := vc_maxItems cs\<rparr> else s8)
           in if vc_enum cs \<noteq> None then s9\<lparr>s_enum := vc_enum cs\<rparr> else s9))"

text \<open>The two tests of \<open>convertTypeToSchema\<close> on the validators of a property:
  \<open>prop.validators?.some(v => v.name === 'IsNotEmpty' || v.constraints?.required === true)\<close>
  and the same with \<open>'IsOptional'\<close> and \<open>false\<close>.\<close>

definition isRequired :: "PropertyMetadata \<Rightarrow> bool" where
  "isRequired prop =
     (case p_validators prop of
        None \<Rightarrow> False
      | Some vs \<Rightarrow> list_ex (\<lambda>v. v_name v = ''IsNotEmpty'' \<or>
          (case v_constraints v of None \<Rightarrow> False | Some cs \<Rightarrow> vc_required cs = Some True)) vs)"

definition isOptional :: "PropertyMetadata \<Rightarrow> bool" where
  "isOptional prop =
     (case p_validators prop of
        None \<Rightarrow> False
      | Some vs \<Rightarrow> list_ex (\<lambda>v. v_name v = ''IsOptional'' \<or>
          (case v_constraints v of None \<Rightarrow> False | Some cs \<Rightarrow> vc_required cs = Some False)) vs)"

text \<open>The list \<open>required\<close> that the loop of \<open>convertTypeToSchema\<close> fills.\<close>

fun requiredByValidators :: "PropertyMetadata list \<Rightarrow> string list \<Rightarrow> string list" where
  "requiredByValidators [] required = required"
| "requiredByValidators (prop # props) required =
     (if isRequired prop \<and> \<not> isOptional prop
      then requiredByValidators props (required @ [p_name prop])
      else requiredByValidators props required)"

fun convertTypeToSchema :: "TypeMetadata option \<Rightarrow> SchemaObject"
  and convertPropertyToSchema :: "PropertyMetadata \<Rightarrow> SchemaObject" where
  "convertTypeToSchema None = SchemaObject (emptyFields\<lparr>s_type := Some ''object''\<rparr>) None None"
| "convertTypeToSchema (Some (TypeMetadata ty isPrimitive isArray isEnum isOpt format elementType enumValues properties)) =
     (if isPrimitive
      then SchemaObject
             (emptyFields\<lparr>s_type := Some ty, s_format := (if truthyOpt format then format else None)\<rparr>)
             None None
      else if isArray \<and> elementType \<noteq> None
      then SchemaObject (emptyFields\<lparr>s_type := Some ''array''\<rparr>) (Some (convertTypeToSchema elementType)) None
      else if isEnum \<and> enumValues \<noteq> None
      then SchemaObject (emptyFields\<lparr>s_type := Some ''string'', s_enum := enumValues\<rparr>) None None
      else (case properties of
              None \<Rightarrow> SchemaObject emptyFields None None
            | Some props \<Rightarrow>
                (let required = requiredByValidators props []
                 in SchemaObject
                      (emptyFields\<lparr>s_type := Some ''object'',
                         s_required := (if required \<noteq> [] then Some required else None)\<rparr>)
                      None
                      (Some (foldl (\<lambda>acc prop. assignEntry (p_name prop) (convertPropertyToSchema prop) acc)
                               [] props)))))"
| "convertPropertyToSchema (PropertyMetadata name ty required description validators) =
     (let base = (case ty of
                    None \<Rightarrow> SchemaObject emptyFields None None
                  | Some t \<Rightarrow> convertTypeToSchema (Some t));
          constrained = foldl applyValidatorConstraints (s_fields base)
                          (case validators of None \<Rightarrow> [] | Some vs \<Rightarrow> vs)
      in SchemaObject
           (if truthyOpt description then constrained\<lparr>s_description := description\<rparr> else constrained)
           (s_items base) (s_properties base))"

text \<open>The list \<open>required\<close> that the loop of \<open>convertDtoToSchema\<close> fills.\<close>

fun requiredByFlag :: "PropertyMetadata list \<Rightarrow> string list \<Rightarrow> string list" where
  "requiredByFlag [] required = required"
| "requiredByFlag (prop # props) required =
     (if p_required prop
      then requiredByFlag props (required @ [p_name prop])
      else requiredByFlag props required)"

definition convertDtoToSchema :: "DtoMetadata \<Rightarrow> SchemaObject" where
  "convertDtoToSchema dto =
     (let required = requiredByFlag (d_properties dto) [];
          f1 = emptyFields\<lparr>s_type := Some ''object''\<rparr>;
          f2 = (if required \<noteq> [] then f1\<lparr>s_required := Some required\<rparr> else f1);
          f3 = (if truthyOpt (d_description dto) then f2\<lparr>s_description := d_description dto\<rparr> else f2)
      in SchemaObject f3 None
           (Some (foldl (\<lambda>acc prop. assignEntry (p_name prop) (convertPropertyToSchema prop) acc)
                    [] (d_properties dto))))"

subsection \<open>Operations\<close>

text \<open>The object that \<open>createParameters\<close> pushes for a parameter.\<close>

definition parameterObject :: "ParamMetadata \<Rightarrow> ParameterObject" where
  "parameterObject param =
     \<lparr> po_name = pm_name param,
         po_in = pm_in param,
         po_required = (pm_in param = InPath \<or> pm_required param),
         po_schema = convertTypeToSchema (pm_type param),
         po_description = pm_description param \<rparr>"

text \<open>The loop of \<open>createParameters\<close>, with the array \<open>parameters\<close> it pushes to.\<close>

fun pushParameters :: "ParamMetadata list \<Rightarrow> ParameterObject list \<Rightarrow> ParameterObject list" where
  "pushParameters [] parameters = parameters"
| "pushParameters (param # params) parameters =
     (if pm_in param = InPath \<or> pm_in param = InQuery
      then pushParameters params (parameters @ [parameterObject param])
      else pushParameters params parameters)"

definition createParameters :: "ParamMetadata list \<Rightarrow> ParameterObject list option" where
  "createParameters params =
     (let parameters = pushParameters params []
      in if length parameters > 0 then Some parameters else None)"

definition createOperation :: "RouteMetadata \<Rightarrow> string ControllerMetadata \<Rightarrow> OperationObject" where
  "createOperation route controller =
     (let operation =
        \<lparr> op_summary = orElse (r_description route) (methodName (r_httpMethod route) @ '' '' @ r_path route),
            op_description = r_description route,
            op_tags = (if truthy (c_category controller) then Some [c_category controller] else None),
            op_operationId = c_name controller @ ''_'' @ r_name route,
            op_parameters = createParameters (case r_params route of None \<Rightarrow> [] | Some ps \<Rightarrow> ps),
            op_responses =
              [(''200'', \<lparr> rs_description = ''Successful response'',
                           rs_content = (case r_responseType route of
                                           None \<Rightarrow> None
                                         | Some dto \<Rightarrow> Some [(''application/json'', convertDtoToSchema dto)]) \<rparr>),
               (''400'', \<lparr> rs_description = ''Bad request'', rs_content = None \<rparr>),
               (''401'', \<lparr> rs_description = ''Unauthorized'', rs_content = None \<rparr>),
               (''500'', \<lparr> rs_description = ''Internal server error'', rs_content = None \<rparr>)],
            op_security = (if r_isPublic route then None else Some [[(''bearerAuth'', [])]]),
            op_requestBody = None \<rparr>
      in if r_httpMethod route \<in> {POST, PUT, PATCH}
         then (case r_requestBody route of
                 None \<Rightarrow> operation
               | Some dto \<Rightarrow>
                   operation\<lparr>op_requestBody :=
                     Some \<lparr> rb_required = True,
                            rb_content = [(''application/json'', convertDtoToSchema dto)] \<rparr>\<rparr>)
         else operation)"

subsection \<open>Tags\<close>

text \<open>The loop of \<open>generateTags\<close>, with the set \<open>categorySet\<close> and the map \<open>tags\<close>.\<close>

fun generateTags ::
  "string ControllerMetadata list \<Rightarrow> string list \<Rightarrow> (string \<times> TagObject) list
     \<Rightarrow> (string \<times> TagObject) list" where
  "generateTags [] categorySet tags = tags"
| "generateTags (controller # controllers) categorySet tags =
     (if truthy (c_category controller) \<and> c_category controller \<notin> set categorySet
      then generateTags controllers (categorySet @ [c_category controller])
             (setEntry (c_category controller)
                \<lparr> tag_name = c_category controller,
                    tag_description = orElse (c_description controller)
                                        (c_category controller @ '' related endpoints'') \<rparr>
                tags)
      else generateTags controllers categorySet tags)"

subsection \<open>Paths\<close>

text \<open>The \<open>switch\<close> of \<open>generatePaths\<close>: the operation goes to the field of its method.\<close>

fun setOperation :: "HttpMethod \<Rightarrow> OperationObject \<Rightarrow> PathItemObject \<Rightarrow> PathItemObject" where
  "setOperation GET operation item = item\<lparr>pi_get := Some operation\<rparr>"
| "setOperation POST operation item = item\<lparr>pi_post := Some operation\<rparr>"
| "setOperation PUT operation item = item\<lparr>pi_put := Some operation\<rparr>"
| "setOperation PATCH operation item = item\<lparr>pi_patch := Some operation\<rparr>"
| "setOperation DELETE operation item = item\<lparr>pi_delete := Some operation\<rparr>"
| "setOperation OPTIONS operation item = item\<lparr>pi_options := Some operation\<rparr>"
| "setOperation HEAD operation item = item\<lparr>pi_head := Some operation\<rparr>"

text \<open>\<open>route.httpMethod.toLowerCase()\<close>: the name of the field of the path item that
  receives the operation.\<close>

fun methodField :: "HttpMethod \<Rightarrow> string" where
  "methodField GET = ''get''"
| "methodField POST = ''post''"
| "methodField PUT = ''put''"
| "methodField PATCH = ''patch''"
| "methodField DELETE = ''delete''"
| "methodField OPTIONS = ''options''"
| "methodField HEAD = ''head''"

definition methodFields :: "string list" where
  "methodFields = map methodField [GET, POST, PUT, PATCH, DELETE, OPTIONS, HEAD]"

text \<open>The names of the members that \<open>Object.prototype\<close> has in every process, and
  every object literal inherits. All of them are truthy: functions, and for \<open>__proto__\<close>
  the accessor that reads as \<open>Object.prototype\<close> itself.\<close>

definition objectPrototypeMembers :: "string list" where
  "objectPrototypeMembers =
     [''constructor'', ''__defineGetter__'', ''__defineSetter__'', ''hasOwnProperty'',
      ''__lookupGetter__'', ''__lookupSetter__'', ''isPrototypeOf'', ''propertyIsEnumerable'',
      ''toString'', ''valueOf'', ''__proto__'', ''toLocaleString'']"

text \<open>What an object literal inherits under the name \<open>k\<close>, when \<open>added\<close> are the
  names of the members that the generator has added to \<open>Object.prototype\<close>.\<close>

definition inherits :: "string list \<Rightarrow> string \<Rightarrow> bool" where
  "inherits added k = (k \<in> set objectPrototypeMembers \<or> k \<in> set added)"

text \<open>The body of the inner loop, on the paths and on the names added to
  \<open>Object.prototype\<close>. The path item of \<open>fullPath\<close> is created when \<open>paths[fullPath]\<close>
  is falsy, and the operation is assigned to the field of its method of
  \<open>paths[fullPath]\<close>. For a key that the paths do not own but inherit,
  \<open>paths[fullPath]\<close> is the inherited member, which is truthy: no path item is created
  and the operation is assigned to a field of that member, so the paths keep their
  entries. When the key is \<open>__proto__\<close> that member is \<open>Object.prototype\<close>: the
  operation becomes a member of \<open>Object.prototype\<close> under the name of its method, which
  every object inherits from then on.\<close>

definition addRoute ::
  "AutoDocsOptions \<Rightarrow> string ControllerMetadata \<Rightarrow> (string \<times> PathItemObject) list \<times> string list
     \<Rightarrow> RouteMetadata \<Rightarrow> (string \<times> PathItemObject) list \<times> string list" where
  "addRoute options controller state route =
     (let paths = fst state;
          added = snd state;
          key = fullPath options controller route;
          operation = createOperation route controller
      in case map_of paths key of
           Some item \<Rightarrow> (setProperty key (setOperation (r_httpMethod route) operation item) paths, added)
         | None \<Rightarrow>
             if key = ''__proto__'' then (paths, added @ [methodField (r_httpMethod route)])
             else if inherits added key then (paths, added)
             else (setProperty key (setOperation (r_httpMethod route) operation emptyPathItem) paths,
                   added))"

text \<open>\<open>generatePaths\<close> returns the paths; with them, the model returns the names added
  to \<open>Object.prototype\<close> when it ends, from those added when it starts.\<close>

definition generatePaths ::
  "string ControllerMetadata list \<Rightarrow> AutoDocsOptions \<Rightarrow> string list
     \<Rightarrow> (string \<times> PathItemObject) list \<times> string list" where
  "generatePaths controllers options added =
     foldl (\<lambda>state controller. foldl (addRoute options controller) state (c_routes controller))
       ([], added) controllers"

subsection \<open>Servers\<close>

text \<open>The set \<open>versions\<close> of \<open>generateDefaultServers\<close>, in insertion order.\<close>

definition detectedVersions :: "string ControllerMetadata list \<Rightarrow> string list" where
  "detectedVersions controllers =
     uniq [] (concat (map (\<lambda>controller.
        case c_version controller of
          None \<Rightarrow> []
        | Some version \<Rightarrow> if truthy version then [version] else []) controllers))"

definition generateDefaultServers ::
  "AutoDocsOptions \<Rightarrow> string ControllerMetadata list \<Rightarrow> ServerConfig list" where
  "generateDefaultServers options controllers =
     (let servers =
        (if versioningEnabled options
         then (let versions = detectedVersions controllers
               in if length versions > 0
                  then map (\<lambda>version.
                         \<lparr> srv_url = orElse (versioningPrefix options) ''/api'' @ ''/'' @ version,
                             srv_description = Some (''API '' @ toUpperCase version) \<rparr>)
                         (sortBy defaultCompare versions)
                  else if truthyOpt (versioningFallback options)
                  then [\<lparr> srv_url = orElse (versioningFallback options) [],
                            srv_description = Some ''API Server'' \<rparr>]
                  else [])
         else if truthyOpt (o_globalPrefix options)
         then [\<lparr> srv_url = orElse (o_globalPrefix options) [],
                   srv_description = Some ''API Server'' \<rparr>]
         else [])
      in if length servers = 0
         then [\<lparr> srv_url = orElse (o_baseServerURL options) ''/'',
                   srv_description = Some (if truthyOpt (o_baseServerURL options)
                                           then ''Base Server''
                                           else ''Current Server (editable in dropdown)'') \<rparr>]
         else servers)"

subsection \<open>generate\<close>

text \<open>\<open>localeCompare\<close> is the collation of the host; it is a parameter of \<open>generate\<close>.
  \<open>generateFrom\<close> is \<open>generate\<close> called where \<open>added\<close> are the names added to
  \<open>Object.prototype\<close> before the call; it returns the specification and the names added
  after the call.\<close>

definition generateFrom ::
  "string list \<Rightarrow> (string \<Rightarrow> string \<Rightarrow> int) \<Rightarrow> string ControllerMetadata list \<Rightarrow> AutoDocsOptions
     \<Rightarrow> OpenApiSpec \<times> string list" where
  "generateFrom added localeCompare controllers options =
     (let tags = generateTags controllers [] [];
          generated = generatePaths controllers options added
      in (\<lparr> oa_openapi = ''3.0.0'',
             oa_info = \<lparr> i_title = o_title options,
                          i_version = o_version options,
                          i_description = orElse (o_description options) ''Auto-generated API documentation'',
                          i_contact = o_contact options \<rparr>,
             oa_servers = (case o_servers options of
                             Some servers \<Rightarrow> servers
                           | None \<Rightarrow> generateDefaultServers options controllers),
             oa_tags = sortBy (\<lambda>a b. localeCompare (tag_name a) (tag_name b)) (map snd tags),
             oa_paths = fst generated,
             oa_components =
               \<lparr> co_schemas = [],
                   co_securitySchemes =
                     (if o_includeSecurity options \<noteq> Some False
                      then Some [(''bearerAuth'',
                             \<lparr> ss_type = ''http'', ss_scheme = ''bearer'', ss_bearerFormat = ''JWT'',
                                 ss_description = ''Enter your JWT token in the format: Bearer {token}'' \<rparr>)]
                      else None) \<rparr> \<rparr>,
          snd generated))"

text \<open>\<open>generate\<close> in a process where nothing has been added to \<open>Object.prototype\<close>.\<close>

definition generate ::
  "(string \<Rightarrow> string \<Rightarrow> int) \<Rightarrow> string ControllerMetadata list \<Rightarrow> AutoDocsOptions \<Rightarrow> OpenApiSpec" where
  "generate localeCompare controllers options = fst (generateFrom [] localeCompare controllers options)"

section \<open>CategoryGenerator (generators/category-generator.ts)\<close>

text \<open>\<open>s.toLowerCase().replace(/[\s-]+/g, '')\<close>, the normal form that
  \<open>findMappedCategory\<close> compares.\<close>

definition normalizeCategory :: "string \<Rightarrow> string" where
  "normalizeCategory s = filter (\<lambda>c. \<not> isSpace c \<and> c \<noteq> CHR ''-'') (toLowerCase s)"

text \<open>What \<open>findMappedCategory\<close> can return besides \<open>undefined\<close>, and what the
  category of a controller can be after the mapping: a string, or the member of
  \<open>Object.prototype\<close> of the given name, which is not a string (a function, the object
  \<open>Object.prototype\<close> for \<open>__proto__\<close>, an operation for a name the generator has
  added).\<close>

datatype CategoryValue = Text string | Member string

text \<open>The loop of \<open>findMappedCategory\<close> over \<open>Object.entries(mapping)\<close>.\<close>

fun findNormalized :: "string \<Rightarrow> (string \<times> string) list \<Rightarrow> string option" where
  "findNormalized normalizedCategory [] = None"
| "findNormalized normalizedCategory ((key, v) # entries) =
     (let normalizedKey = normalizeCategory key
      in if normalizedCategory = normalizedKey then Some v
         else if startsWith normalizedCategory normalizedKey then Some v
         else findNormalized normalizedCategory entries)"

text \<open>The read \<open>mapping[k]\<close>, for a mapping that is an object literal with the given
  own entries, where \<open>added\<close> are the names added to \<open>Object.prototype\<close>: the own entry
  of the key, or else the inherited member of that name, or else \<open>undefined\<close>
  (\<open>None\<close>).\<close>

definition readMapping :: "string list \<Rightarrow> (string \<times> string) list \<Rightarrow> string \<Rightarrow> CategoryValue option" where
  "readMapping added mapping k =
     (case map_of mapping k of
        Some v \<Rightarrow> Some (Text v)
      | None \<Rightarrow> if inherits added k then Some (Member k) else None)"

text \<open>The truthiness of such a value: a string when it is not empty, an inherited
  member always.\<close>

fun truthyValue :: "CategoryValue option \<Rightarrow> bool" where
  "truthyValue None = False"
| "truthyValue (Some (Text v)) = truthy v"
| "truthyValue (Some (Member k)) = True"

definition findMappedCategory ::
  "string list \<Rightarrow> string \<Rightarrow> (string \<times> string) list \<Rightarrow> CategoryValue option" where
  "findMappedCategory added category mapping =
     (if truthyValue (readMapping added mapping category) then readMapping added mapping category
      else map_option Text (findNormalized (normalizeCategory category) mapping))"

text \<open>\<open>{ ...controller, category: c }\<close>.\<close>

definition withCategory :: "'a ControllerMetadata \<Rightarrow> 'b \<Rightarrow> 'b ControllerMetadata" where
  "withCategory controller category =
     \<lparr> c_name = c_name controller, c_path = c_path controller, c_category = category,
         c_version = c_version controller, c_description = c_description controller,
         c_routes = c_routes controller \<rparr>"

text \<open>\<open>mappedCategory || controller.category\<close>.\<close>

definition orCategory :: "CategoryValue option \<Rightarrow> string \<Rightarrow> CategoryValue" where
  "orCategory mappedCategory category =
     (case mappedCategory of
        None \<Rightarrow> Text category
      | Some v \<Rightarrow> if truthyValue (Some v) then v else Text category)"

text \<open>The controllers of the scanner, whose categories are strings, among the controllers
  whose categories a mapping could have replaced.\<close>

definition unmapped :: "string ControllerMetadata list \<Rightarrow> CategoryValue ControllerMetadata list" where
  "unmapped controllers =
     map (\<lambda>controller. withCategory controller (Text (c_category controller))) controllers"

text \<open>\<open>applyCategoryMapping\<close>. Without a mapping the controllers are returned as they
  are, their categories strings.\<close>

definition applyCategoryMapping ::
  "string list \<Rightarrow> string ControllerMetadata list \<Rightarrow> (string \<times> string) list option
     \<Rightarrow> CategoryValue ControllerMetadata list" where
  "applyCategoryMapping added controllers categoryMapping =
     (case categoryMapping of
        None \<Rightarrow> unmapped controllers
      | Some mapping \<Rightarrow>
          map (\<lambda>controller.
                 withCategory controller
                   (orCategory (findMappedCategory added (c_category controller) mapping)
                      (c_category controller)))
            controllers)"

definition getCategories :: "string ControllerMetadata list \<Rightarrow> string list" where
  "getCategories controllers =
     sortBy defaultCompare (uniq [] (filter truthy (map c_category controllers)))"

text \<open>The lookup as the specification words it, in three passes over the mapping: an
  exact key; else the first key equal to the category after normalisation; else the first
  key that, normalised, is a prefix of the normalised category. It is compared with
  \<open>findMappedCategory\<close> below.\<close>

definition spec_findMappedCategory :: "string \<Rightarrow> (string \<times> string) list \<Rightarrow> string option" where
  "spec_findMappedCategory category mapping =
     (case map_of mapping category of
        Some v \<Rightarrow> Some v
      | None \<Rightarrow>
          (case find (\<lambda>(key, v). normalizeCategory key = normalizeCategory category) mapping of
             Some (key, v) \<Rightarrow> Some v
           | None \<Rightarrow>
               (case find (\<lambda>(key, v). startsWith (normalizeCategory category) (normalizeCategory key))
                       mapping of
                  Some (key, v) \<Rightarrow> Some v
                | None \<Rightarrow> None)))"

section \<open>RouteScanner (scanner/route-scanner.ts)\<close>

text \<open>What the scanner reads from the syntax tree of the source model provider: of a
  decorator its name and the texts of its arguments, of a parameter declaration its name,
  the text and the kind of its type, its question token and initializer, and its
  decorators.\<close>

record Decorator =
  dec_name :: string
  dec_arguments :: "string list"

record ParameterDeclaration =
  pd_name :: string
  pd_typeText :: string
  pd_isString :: bool
  pd_isNumber :: bool
  pd_isBoolean :: bool
  pd_isArray :: bool
  pd_isEnum :: bool
  pd_hasQuestionToken :: bool
  pd_hasInitializer :: bool
  pd_decorators :: "Decorator list"

text \<open>\<open>RouteScanner.combinePaths(base, path)\<close>.\<close>

definition combinePaths_RouteScanner :: "string \<Rightarrow> string \<Rightarrow> string" where
  "combinePaths_RouteScanner base path =
     (if \<not> truthy base \<and> \<not> truthy path then ''/''
      else if \<not> truthy base then collapseSlashes (''/'' @ path)
      else if \<not> truthy path then collapseSlashes (''/'' @ base)
      else ''/'' @ collapseSlashes
             (join ''/'' (filter (\<lambda>p. truthy p \<and> p \<noteq> ''/'') (map trim [base, path]))))"

definition buildParamMetadata ::
  "ParameterDeclaration \<Rightarrow> Decorator \<Rightarrow> string \<Rightarrow> ParamMetadata option" where
  "buildParamMetadata param decorator decoratorName =
     (let paramName = (case dec_arguments decorator of
                         [] \<Rightarrow> pd_name param
                       | arg # args \<Rightarrow> removeQuotes arg);
          location = (if decoratorName = ''Param'' then InPath
                      else if decoratorName = ''Headers'' then InHeader
                      else InQuery)
      in Some \<lparr> pm_name = paramName,
                pm_in = location,
                pm_type = Some (TypeMetadata (pd_typeText param)
                                  (pd_isString param \<or> pd_isNumber param \<or> pd_isBoolean param)
                                  (pd_isArray param) (pd_isEnum param)
                                  (pd_hasQuestionToken param \<or> pd_hasInitializer param)
                                  None None None None),
                pm_required = (location = InPath),
                pm_description = None \<rparr>)"

text \<open>The two loops of \<open>extractParameters\<close>: over the decorators of one parameter, and
  over the parameters of the method.\<close>

fun extractFromDecorators ::
  "ParameterDeclaration \<Rightarrow> Decorator list \<Rightarrow> ParamMetadata list \<Rightarrow> ParamMetadata list" where
  "extractFromDecorators param [] params = params"
| "extractFromDecorators param (decorator # decorators) params =
     (if dec_name decorator = ''Body'' then extractFromDecorators param decorators params
      else if dec_name decorator \<in> set [''Param'', ''Query'', ''Headers'']
      then (case buildParamMetadata param decorator (dec_name decorator) of
              Some paramMetadata \<Rightarrow> extractFromDecorators param decorators (params @ [paramMetadata])
            | None \<Rightarrow> extractFromDecorators param decorators params)
      else extractFromDecorators param decorators params)"

definition extractParameters :: "ParameterDeclaration list \<Rightarrow> ParamMetadata list" where
  "extractParameters parameters =
     foldl (\<lambda>params param. extractFromDecorators param (pd_decorators param) params) [] parameters"

section \<open>AutoDocsService (module/auto-docs.service.ts)\<close>

text \<open>
  The fields of the service that change are its state; with them the state holds the
  names that the generator has added to \<open>Object.prototype\<close>, which is shared by all the
  objects of the process. The options and the collaborators are fixed at construction.
  A thrown \<open>Error\<close> is the left value of a sum. The controller scanner reads the source
  files through the source model provider, whose calls can raise: the outcome of
  \<open>scanControllers\<close> (the controllers it found, or the error raised) is an argument of
  \<open>scan\<close>, as is the time of the clock. Writing to the log is not modelled, and
  \<open>getCategories\<close>, whose result \<open>scan\<close> only logs, is not called.
\<close>

datatype error = Error string

record ServiceState =
  st_openApiSpec :: "OpenApiSpec option"
  st_controllers :: "string ControllerMetadata list"
  st_lastScanTime :: "nat option"
  st_added :: "string list"

definition initialState :: ServiceState where
  "initialState = \<lparr> st_openApiSpec = None, st_controllers = [], st_lastScanTime = None,
     st_added = [] \<rparr>"

text \<open>The controllers whose categories are all strings, as ControllerMetadata; \<open>None\<close>
  when a category is not a string.\<close>

fun categoryText :: "CategoryValue \<Rightarrow> string option" where
  "categoryText (Text v) = Some v"
| "categoryText (Member k) = None"

definition typedControllers ::
  "CategoryValue ControllerMetadata list \<Rightarrow> string ControllerMetadata list option" where
  "typedControllers controllers =
     (if list_all (\<lambda>controller. categoryText (c_category controller) \<noteq> None) controllers
      then Some (map (\<lambda>controller. withCategory controller (the (categoryText (c_category controller))))
                   controllers)
      else None)"

text \<open>
  \<open>scan\<close>. A failure of \<open>scanControllers\<close> is logged and thrown again, before any
  field is assigned. The result is \<open>None\<close> where the model ends: when the category
  mapping has replaced the category of a controller by a value that is not a string.
  The controllers stored are then not ControllerMetadata, and what \<open>generate\<close> does with
  them depends on the host: its \<open>sort\<close> calls the comparator of the tags in an order of
  its own, and the comparator raises when the name it is called on is not a string.
\<close>

definition scan ::
  "(string \<Rightarrow> string \<Rightarrow> int) \<Rightarrow> AutoDocsOptions \<Rightarrow> error + string ControllerMetadata list \<Rightarrow> nat
     \<Rightarrow> ServiceState \<Rightarrow> ((error + unit) \<times> ServiceState) option" where
  "scan localeCompare options scanned now st =
     (case scanned of
        Inl e \<Rightarrow> Some (Inl e, st)
      | Inr found \<Rightarrow>
          (case typedControllers
                  (if o_categoryMapping options \<noteq> None
                   then applyCategoryMapping (st_added st) found (o_categoryMapping options)
                   else unmapped found) of
             None \<Rightarrow> None
           | Some controllers \<Rightarrow>
               (let generated = generateFrom (st_added st) localeCompare controllers options
                in Some (Inr (),
                         st\<lparr> st_controllers := controllers,
                             st_openApiSpec := Some (fst generated),
                             st_lastScanTime := Some now,
                             st_added := snd generated \<rparr>))))"

text \<open>\<open>initialize\<close> logs a failure of \<open>scan\<close> and throws it again.\<close>

definition initialize ::
  "(string \<Rightarrow> string \<Rightarrow> int) \<Rightarrow> AutoDocsOptions \<Rightarrow> error + string ControllerMetadata list \<Rightarrow> nat
     \<Rightarrow> ServiceState \<Rightarrow> ((error + unit) \<times> ServiceState) option" where
  "initialize localeCompare options scanned now st =
     (case scan localeCompare options scanned now st of
        None \<Rightarrow> None
      | Some (Inl e, st') \<Rightarrow> Some (Inl e, st')
      | Some (Inr u, st') \<Rightarrow> Some (Inr u, st'))"

definition getOpenApiSpec :: "ServiceState \<Rightarrow> (error + OpenApiSpec) \<times> ServiceState" where
  "getOpenApiSpec st =
     (case st_openApiSpec st of
        None \<Rightarrow> (Inl (Error ''OpenAPI spec not generated. Call initialize() first.''), st)
      | Some spec \<Rightarrow> (Inr spec, st))"

section \<open>The type resolver\<close>

text \<open>Modelled from the spec: the type handles of the source model provider, which
  \<open>DtoAnalyzer.analyzeType\<close> (scanner/dto-analyzer.ts, not among the sources) resolves.
  A handle is a primitive with an optional format, void, null, undefined, an asynchronous
  wrapper with at most one type argument, an array, an enumeration, a union, a named
  declared structure, an inline object shape with its members, or an unrecognised shape.\<close>

datatype TypeHandle =
    HPrimitive string "string option"
  | HVoid
  | HNull
  | HUndefined
  | HAsync "TypeHandle option"
  | HArray TypeHandle
  | HEnum "string list"
  | HUnion "TypeHandle list"
  | HNamed string
  | HInline "MemberDecl list"
  | HUnknown
and MemberDecl =
  MemberDecl
    (m_name: string)
    (m_type: TypeHandle)
    (m_optional: bool)
    (m_hasInitializer: bool)
    (m_doc: "string option")

text \<open>Modelled from the spec: the Type Descriptor of the data model (Primitive, Array,
  Enum, Object), with the reference variant that ends a branch of a cyclic type, and the
  Property Descriptor. The type of a property is absent when its resolution is.\<close>

datatype TypeDescriptor =
    TPrimitive string "string option"
  | TArray TypeDescriptor
  | TEnum "string list"
  | TObject "PropertyDescriptor list"
  | TReference string
and PropertyDescriptor =
  PropertyDescriptor
    (prd_name: string)
    (prd_type: "TypeDescriptor option")
    (prd_required: bool)
    (prd_doc: "string option")

text \<open>Modelled from the spec: the members of a union that are skipped.\<close>

fun isNullish :: "TypeHandle \<Rightarrow> bool" where
  "isNullish HNull = True"
| "isNullish HUndefined = True"
| "isNullish HVoid = True"
| "isNullish h = False"

text \<open>Modelled from the spec: the handles that are named declared structures.\<close>

fun isNamed :: "TypeHandle \<Rightarrow> bool" where
  "isNamed (HNamed n) = True"
| "isNamed h = False"

text \<open>Modelled from the spec: a member of a union is taken when it resolves to a
  non-empty Object or is a named type that resolves.\<close>

fun acceptable :: "TypeHandle \<times> TypeDescriptor option \<Rightarrow> bool" where
  "acceptable (h, None) = False"
| "acceptable (h, Some (TObject ps)) = (ps \<noteq> [] \<or> isNamed h)"
| "acceptable (h, Some d) = isNamed h"

text \<open>Modelled from the spec: the cycle guard keeps the set of identities in progress;
  this is the number of declared names that are not in it, which a resolution that enters
  a named type uses up.\<close>

definition notInProgress :: "(string \<times> MemberDecl list) list \<Rightarrow> string list \<Rightarrow> nat" where
  "notInProgress decls inProgress = length (filter (\<lambda>k. k \<notin> set inProgress) (map fst decls))"

text \<open>Modelled from the spec: the algorithm of the Type Resolver (DtoAnalyzer.analyzeType
  is not among the sources), steps 1 to 8. \<open>decls\<close> are the named declared structures
  the provider can find, each with its declared properties; \<open>inProgress\<close> is the set of
  named-type identities of the current resolution chain. The result \<open>None\<close> is the
  absent type. A named type that is in progress ends its branch as a reference.\<close>

function resolveType ::
  "(string \<times> MemberDecl list) list \<Rightarrow> string list \<Rightarrow> TypeHandle \<Rightarrow> TypeDescriptor option" where
  "resolveType decls inProgress (HPrimitive kind format) = Some (TPrimitive kind format)"
| "resolveType decls inProgress HVoid = None"
| "resolveType decls inProgress HNull = None"
| "resolveType decls inProgress HUndefined = None"
| "resolveType decls inProgress (HAsync None) = None"
| "resolveType decls inProgress (HAsync (Some inner)) = resolveType decls inProgress inner"
| "resolveType decls inProgress (HArray element) =
     (case resolveType decls inProgress element of None \<Rightarrow> None | Some d \<Rightarrow> Some (TArray d))"
| "resolveType decls inProgress (HEnum values) = Some (TEnum values)"
| "resolveType decls inProgress (HUnion members) =
     (case find acceptable
             (map (\<lambda>h. (h, resolveType decls inProgress h)) (filter (\<lambda>h. \<not> isNullish h) members)) of
        None \<Rightarrow> None
      | Some (h, d) \<Rightarrow> d)"
| "resolveType decls inProgress (HNamed n) =
     (if n \<in> set inProgress then Some (TReference n)
      else (case map_of decls n of
              None \<Rightarrow> None
            | Some members \<Rightarrow>
                Some (TObject (map (\<lambda>m. PropertyDescriptor (m_name m)
                                     (resolveType decls (n # inProgress) (m_type m))
                                     (\<not> m_optional m \<and> \<not> m_hasInitializer m) (m_doc m)) members))))"
| "resolveType decls inProgress (HInline members) =
     (if members = [] then None
      else Some (TObject (map (\<lambda>m. PropertyDescriptor (m_name m)
                                (resolveType decls inProgress (m_type m))
                                (\<not> m_optional m \<and> \<not> m_hasInitializer m) (m_doc m)) members)))"
| "resolveType decls inProgress HUnknown = None"
  by pat_completeness auto
termination
proof (relation "measures [\<lambda>(decls, inProgress, h). notInProgress decls inProgress,
                           \<lambda>(decls, inProgress, h). size h]", goal_cases)
  case 1
  show ?case by simp
next
  case (2 decls inProgress inner)
  show ?case by simp
next
  case (3 decls inProgress element)
  show ?case by simp
next
  case (4 decls inProgress members h)
  then have "h \<in> set members" by simp
  then have "size h \<le> size_list size members" by (simp add: size_list_estimation')
  then show ?case by simp
next
  case (5 decls inProgress n members m)
  from 5(2) have "(n, members) \<in> set decls" by (rule map_of_SomeD)
  then have "n \<in> set (map fst decls)" by force
  with 5(1) have a: "n \<in> set (filter (\<lambda>k. k \<notin> set inProgress) (map fst decls))" by simp
  have b: "length (filter (\<lambda>k. k \<noteq> n) (filter (\<lambda>k. k \<notin> set inProgress) (map fst decls)))
             < length (filter (\<lambda>k. k \<notin> set inProgress) (map fst decls))"
    by (rule length_filter_less [OF a]) simp
  have c: "filter (\<lambda>k. k \<notin> set (n # inProgress)) (map fst decls)
           = filter (\<lambda>k. k \<noteq> n) (filter (\<lambda>k. k \<notin> set inProgress) (map fst decls))"
    by (induction decls) auto
  have "notInProgress decls (n # inProgress) < notInProgress decls inProgress"
    unfolding notInProgress_def c by (rule b)
  then show ?case by simp
next
  case (6 decls inProgress members m)
  then have "size m \<le> size_list size members" by (simp add: size_list_estimation')
  moreover have "size (m_type m) < size m" by (cases m) simp
  ultimately show ?case by simp
qed

section \<open>Predicates and inputs of the theorems\<close>

text \<open>A colon-prefixed placeholder token: a colon directly followed by a word character.\<close>

fun hasColonToken :: "string \<Rightarrow> bool" where
  "hasColonToken (c # d # cs) = ((c = CHR '':'' \<and> isWordChar d) \<or> hasColonToken (d # cs))"
| "hasColonToken cs = False"

text \<open>Two adjacent separators.\<close>

fun hasDoubleSlash :: "string \<Rightarrow> bool" where
  "hasDoubleSlash (c # d # cs) = ((isSlash c \<and> isSlash d) \<or> hasDoubleSlash (d # cs))"
| "hasDoubleSlash cs = False"

text \<open>The parameters of a route (\<open>route.params || []\<close>) and the parameter list of
  an operation (empty when the operation has no \<open>parameters\<close>).\<close>

definition routeParams :: "RouteMetadata \<Rightarrow> ParamMetadata list" where
  "routeParams route = (case r_params route of None \<Rightarrow> [] | Some ps \<Rightarrow> ps)"

definition parametersOf :: "OperationObject \<Rightarrow> ParameterObject list" where
  "parametersOf operation = (case op_parameters operation of None \<Rightarrow> [] | Some ps \<Rightarrow> ps)"

text \<open>The names a schema lists as required.\<close>

definition listedRequired :: "SchemaObject \<Rightarrow> string list" where
  "listedRequired schema = (case s_required (s_fields schema) of None \<Rightarrow> [] | Some names \<Rightarrow> names)"

text \<open>The inputs of the generator's tests (openapi-generator.spec.ts): the route
  \<open>getProfile\<close>, the controller \<open>AdminController\<close>, the options with versioning
  enabled and the prefix \<open>/api\<close>, and the route with two placeholders.\<close>

definition getProfile :: RouteMetadata where
  "getProfile = \<lparr> r_name = ''getProfile'', r_httpMethod = GET, r_path = ''profile'',
     r_fullPath = ''/admin/profile'', r_description = None, r_params = None,
     r_requestBody = None, r_responseType = None, r_isPublic = False \<rparr>"

definition adminController :: "string ControllerMetadata" where
  "adminController = \<lparr> c_name = ''AdminController'', c_path = ''admin'', c_category = ''Admin'',
     c_version = Some ''v1'', c_description = None, c_routes = [getProfile] \<rparr>"

definition versionedOptions :: AutoDocsOptions where
  "versionedOptions = \<lparr> o_title = ''Test API'', o_version = ''1.0'', o_description = None,
     o_contact = None, o_globalPrefix = None, o_servers = None, o_categoryMapping = None,
     o_includeSecurity = None,
     o_versioning = Some \<lparr> vg_enabled = True, vg_prefix = Some ''/api'', vg_fallback = None \<rparr>,
     o_baseServerURL = None \<rparr>"

definition getResource :: RouteMetadata where
  "getResource = \<lparr> r_name = ''getResource'', r_httpMethod = GET,
     r_path = '':userId/resource/:resourceId'',
     r_fullPath = ''/admin/:userId/resource/:resourceId'', r_description = None, r_params = None,
     r_requestBody = None, r_responseType = None, r_isPublic = False \<rparr>"

definition prefixOptions :: AutoDocsOptions where
  "prefixOptions = \<lparr> o_title = ''Test API'', o_version = ''1.0'', o_description = None,
     o_contact = None, o_globalPrefix = Some ''/api/v1'', o_servers = None, o_categoryMapping = None,
     o_includeSecurity = None, o_versioning = None, o_baseServerURL = None \<rparr>"

text \<open>The options of the precedence test: a detected version meets a fallback that
  differs from the versioned prefix.\<close>

definition legacyOptions :: AutoDocsOptions where
  "legacyOptions = versionedOptions\<lparr>o_versioning :=
     Some \<lparr> vg_enabled = True, vg_prefix = Some ''/api'', vg_fallback = Some ''/legacy'' \<rparr>\<rparr>"

text \<open>The options of the test of a custom version prefix; the same with no prefix
  configured; and options whose versioning block is present, with a prefix and a fallback,
  but not enabled, beside a global prefix.\<close>

definition customPrefixOptions :: AutoDocsOptions where
  "customPrefixOptions = versionedOptions\<lparr>o_versioning :=
     Some \<lparr> vg_enabled = True, vg_prefix = Some ''/rest/api'', vg_fallback = None \<rparr>\<rparr>"

definition defaultPrefixOptions :: AutoDocsOptions where
  "defaultPrefixOptions = versionedOptions\<lparr>o_versioning :=
     Some \<lparr> vg_enabled = True, vg_prefix = None, vg_fallback = None \<rparr>\<rparr>"

definition disabledOptions :: AutoDocsOptions where
  "disabledOptions = versionedOptions\<lparr>o_globalPrefix := Some ''/global'', o_versioning :=
     Some \<lparr> vg_enabled = False, vg_prefix = Some ''/rest/api'', vg_fallback = Some ''/legacy'' \<rparr>\<rparr>"

text \<open>The controller of the placeholder test: no version, the route with two
  placeholders.\<close>

definition resourceController :: "string ControllerMetadata" where
  "resourceController = adminController\<lparr>c_version := None, c_routes := [getResource]\<rparr>"

text \<open>A controller at the root, without a version, whose three routes have the keys
  \<open>__proto__\<close>, \<open>get\<close> and \<open>post\<close> when no prefix is configured.\<close>

definition bareOptions :: AutoDocsOptions where
  "bareOptions = versionedOptions\<lparr>o_versioning := None\<rparr>"

definition rootController :: "string ControllerMetadata" where
  "rootController = \<lparr> c_name = ''RootController'', c_path = ''/'', c_category = ''Root'',
     c_version = None, c_description = None,
     c_routes = [getProfile\<lparr>r_name := ''first'', r_path := ''__proto__''\<rparr>,
                 getProfile\<lparr>r_name := ''second'', r_path := ''get'', r_httpMethod := POST\<rparr>,
                 getProfile\<lparr>r_name := ''third'', r_path := ''post''\<rparr>] \<rparr>"

text \<open>Two parameter declarations, \<open>@Param('id') id?: string\<close> (declared optional)
  and \<open>@Headers('x') trace: string\<close>, and two routes whose parameters are extracted
  from them.\<close>

definition idParameter :: ParameterDeclaration where
  "idParameter = \<lparr> pd_name = ''id'', pd_typeText = ''string'', pd_isString = True,
     pd_isNumber = False, pd_isBoolean = False, pd_isArray = False, pd_isEnum = False,
     pd_hasQuestionToken = True, pd_hasInitializer = False,
     pd_decorators = [\<lparr> dec_name = ''Param'',
                         dec_arguments = [[CHR 0x27, CHR ''i'', CHR ''d'', CHR 0x27]] \<rparr>] \<rparr>"

definition traceParameter :: ParameterDeclaration where
  "traceParameter = \<lparr> pd_name = ''trace'', pd_typeText = ''string'', pd_isString = True,
     pd_isNumber = False, pd_isBoolean = False, pd_isArray = False, pd_isEnum = False,
     pd_hasQuestionToken = False, pd_hasInitializer = False,
     pd_decorators = [\<lparr> dec_name = ''Headers'',
                         dec_arguments = [[CHR 0x27, CHR ''x'', CHR 0x27]] \<rparr>] \<rparr>"

definition getById :: RouteMetadata where
  "getById = getProfile\<lparr> r_name := ''getById'', r_path := '':id'',
     r_params := Some (extractParameters [idParameter, traceParameter]) \<rparr>"

definition traced :: RouteMetadata where
  "traced = getProfile\<lparr> r_name := ''traced'', r_params := Some (extractParameters [traceParameter]) \<rparr>"

text \<open>A sequence of scans, each with the outcome of the controller scanner and the time
  of the clock, run one after the other from a state of the service, whether they fail or
  not; \<open>None\<close> when one of them leaves the model.\<close>

fun runScans ::
  "(string \<Rightarrow> string \<Rightarrow> int) \<Rightarrow> AutoDocsOptions
     \<Rightarrow> ((error + string ControllerMetadata list) \<times> nat) list
     \<Rightarrow> ServiceState \<Rightarrow> ServiceState option" where
  "runScans localeCompare options [] st = Some st"
| "runScans localeCompare options ((scanned, now) # scans) st =
     (case scan localeCompare options scanned now st of
        None \<Rightarrow> None
      | Some (outcome, st') \<Rightarrow> runScans localeCompare options scans st')"

text \<open>The error that \<open>getOpenApiSpec\<close> throws.\<close>

definition notGenerated :: error where
  "notGenerated = Error ''OpenAPI spec not generated. Call initialize() first.''"

text \<open>A mapping with two keys of which one, normalised, is a prefix of the other; a
  controller in the category \<open>Admin - Auth\<close>; a controller whose category is the name
  of an inherited member; and the options with that mapping.\<close>

definition overlappingMapping :: "(string \<times> string) list" where
  "overlappingMapping = [(''admin'', ''Administration''), (''admin auth'', ''Admin Authentication'')]"

definition authController :: "string ControllerMetadata" where
  "authController = adminController\<lparr>c_name := ''AuthController'', c_category := ''Admin - Auth''\<rparr>"

definition objectController :: "string ControllerMetadata" where
  "objectController = adminController\<lparr>c_name := ''ObjectController'', c_category := ''constructor''\<rparr>"

definition mappedOptions :: AutoDocsOptions where
  "mappedOptions = versionedOptions\<lparr>o_categoryMapping := Some overlappingMapping\<rparr>"

text \<open>Three properties: \<open>nickname\<close> carries the validator \<open>IsOptional\<close> and has the
  \<open>required\<close> flag set, \<open>title\<close> carries \<open>IsNotEmpty\<close> and has the flag not set,
  \<open>both\<close> carries both validators; a DTO with the first two, and an object type with all
  three.\<close>

definition stringType :: TypeMetadata where
  "stringType = TypeMetadata ''string'' True False False False None None None None"

definition nicknameProperty :: PropertyMetadata where
  "nicknameProperty = PropertyMetadata ''nickname'' (Some stringType) True None
     (Some [\<lparr> v_name = ''IsOptional'', v_args = [], v_constraints = None \<rparr>])"

definition titleProperty :: PropertyMetadata where
  "titleProperty = PropertyMetadata ''title'' (Some stringType) False None
     (Some [\<lparr> v_name = ''IsNotEmpty'', v_args = [], v_constraints = None \<rparr>])"

definition bothProperty :: PropertyMetadata where
  "bothProperty = PropertyMetadata ''both'' (Some stringType) False None
     (Some [\<lparr> v_name = ''IsNotEmpty'', v_args = [], v_constraints = None \<rparr>,
            \<lparr> v_name = ''IsOptional'', v_args = [], v_constraints = None \<rparr>])"

definition profileDto :: DtoMetadata where
  "profileDto = \<lparr> d_name = ''ProfileDto'', d_properties = [nicknameProperty, titleProperty],
     d_description = None \<rparr>"

definition profileType :: TypeMetadata where
  "profileType = TypeMetadata ''ProfileDto'' False False False False None None None
     (Some [nicknameProperty, titleProperty, bothProperty])"

text \<open>Declarations with cycles: a type that refers to itself directly and through an
  array, and two types that refer to each other.\<close>

definition nodeDecls :: "(string \<times> MemberDecl list) list" where
  "nodeDecls = [(''TreeNode'', [MemberDecl ''label'' (HPrimitive ''string'' None) False False None,
                               MemberDecl ''parent'' (HNamed ''TreeNode'') True False None,
                               MemberDecl ''children'' (HArray (HNamed ''TreeNode'')) False False None]),
                (''Author'', [MemberDecl ''posts'' (HArray (HNamed ''Post'')) False False None]),
                (''Post'', [MemberDecl ''author'' (HUnion [HNull, HNamed ''Author'']) False False None])]"

section \<open>Lemmas on strings and path combination\<close>

text \<open>The definitions that evaluate a concrete string or path.\<close>

lemmas string_eval = truthy_def truthyOpt_def orElse_def stripSlashes_def isSlash_def
  isWordChar_def charCode_def

lemmas path_eval = combinedPath_def fullPath_def combinePaths_def versioningEnabled_def
  versioningPrefix_def versioningFallback_def

lemma last_dropWhile_keep: "dropWhile P xs \<noteq> [] \<Longrightarrow> last (dropWhile P xs) = last xs"
  by (induction xs) (auto split: if_splits)

lemma trailing_keeps_head:
  assumes "t = [] \<or> \<not> P (hd t)"
  shows "dropWhile P (rev (dropWhile P (rev t))) = rev (dropWhile P (rev t))"
proof (cases "dropWhile P (rev t) = []")
  case True
  show ?thesis unfolding True by simp
next
  case False
  from False have "t \<noteq> []" by auto
  from False have "last (dropWhile P (rev t)) = last (rev t)" by (rule last_dropWhile_keep)
  then have "hd (rev (dropWhile P (rev t))) = hd t"
    using False \<open>t \<noteq> []\<close> by (simp add: hd_rev last_rev)
  with assms \<open>t \<noteq> []\<close> have "\<not> P (hd (rev (dropWhile P (rev t))))" by simp
  then show ?thesis by (simp add: dropWhile_eq_self_iff)
qed

lemma dropWhile_no_lead: "dropWhile P s = [] \<or> \<not> P (hd (dropWhile P s))"
  using hd_dropWhile [of P s] by blast

lemma stripSlashes_idem: "stripSlashes (stripSlashes s) = stripSlashes s"
  unfolding stripSlashes_def
  by (simp add: trailing_keeps_head [OF dropWhile_no_lead])

lemma filter_truthy_strip:
  "filter truthy (map stripSlashes (filter truthy segments)) = filter truthy (map stripSlashes segments)"
  by (induction segments) (auto simp: truthy_def stripSlashes_def)

lemma combinePaths_join:
  "combinePaths segments = join ''/'' (filter truthy (map stripSlashes segments))"
  by (simp add: combinePaths_def filter_truthy_strip)

lemma combinePaths_stripped: "combinePaths (map stripSlashes segments) = combinePaths segments"
  by (simp add: combinePaths_join stripSlashes_idem o_def)

lemma combinePaths_all_empty:
  "\<forall>s \<in> set segments. stripSlashes s = [] \<Longrightarrow> combinePaths segments = []"
proof -
  assume a: "\<forall>s \<in> set segments. stripSlashes s = []"
  have "filter truthy (map stripSlashes segments) = []"
    using a by (induction segments) (auto simp: truthy_def)
  then show ?thesis by (simp add: combinePaths_join)
qed

lemma stripSlashes_no_lead: "stripSlashes s = [] \<or> \<not> isSlash (hd (stripSlashes s))"
proof -
  have "dropWhile isSlash (stripSlashes s) = stripSlashes s"
    unfolding stripSlashes_def by (rule trailing_keeps_head [OF dropWhile_no_lead])
  then show ?thesis by (simp add: dropWhile_eq_self_iff)
qed

lemma stripSlashes_no_trail: "stripSlashes s = [] \<or> \<not> isSlash (last (stripSlashes s))"
proof -
  have "dropWhile isSlash (rev (stripSlashes s)) = rev (stripSlashes s)"
    unfolding stripSlashes_def by simp
  then have "rev (stripSlashes s) = [] \<or> \<not> isSlash (hd (rev (stripSlashes s)))"
    by (simp add: dropWhile_eq_self_iff)
  then show ?thesis by (auto simp: hd_rev)
qed

lemma combinePaths_two:
  "stripSlashes a \<noteq> [] \<Longrightarrow> stripSlashes b \<noteq> [] \<Longrightarrow>
   combinePaths [a, b] = stripSlashes a @ ''/'' @ stripSlashes b"
  by (simp add: combinePaths_join truthy_def)

lemma gen_empty: "combinePaths [[], []] = []"
  by (simp add: combinePaths_def truthy_def stripSlashes_def isSlash_def)

section \<open>Lemmas on the path combination of the route scanner\<close>

lemma slash_not_space: "\<not> isSpace CHR ''/''"
  by (simp add: isSpace_def charCode_def)

lemma trim_ends:
  assumes "trim s = s" and "s \<noteq> []"
  shows "\<not> isSpace (hd s) \<and> \<not> isSpace (last s)"
proof -
  have "dropWhile isSpace (trim s) = trim s"
    unfolding trim_def by (rule trailing_keeps_head [OF dropWhile_no_lead])
  with assms have h: "\<not> isSpace (hd s)" by (simp add: dropWhile_eq_self_iff)
  have "dropWhile isSpace (rev (trim s)) = rev (trim s)"
    unfolding trim_def by simp
  with assms have "\<not> isSpace (hd (rev s))" by (simp add: dropWhile_eq_self_iff)
  with assms(2) have "\<not> isSpace (last s)" by (simp add: hd_rev)
  with h show ?thesis by simp
qed

lemma trim_keeps:
  assumes "s \<noteq> []" and "\<not> isSpace (hd s)" and "\<not> isSpace (last s)"
  shows "trim s = s"
proof -
  from assms have a: "dropWhile isSpace s = s" by (simp add: dropWhile_eq_self_iff)
  from assms have "dropWhile isSpace (rev s) = rev s" by (simp add: dropWhile_eq_self_iff hd_rev)
  with a show ?thesis by (simp add: trim_def)
qed

lemma trim_trailing_slashes:
  assumes "trim base = base" and "base \<noteq> []"
  shows "trim (base @ replicate i CHR ''/'') = base @ replicate i CHR ''/''"
proof (rule trim_keeps)
  show "base @ replicate i CHR ''/'' \<noteq> []" using assms(2) by simp
  show "\<not> isSpace (hd (base @ replicate i CHR ''/''))"
    using trim_ends [OF assms] assms(2) by simp
  show "\<not> isSpace (last (base @ replicate i CHR ''/''))"
    using trim_ends [OF assms] by (cases i) (simp_all add: slash_not_space)
qed

lemma trim_leading_slashes:
  assumes "trim path = path" and "path \<noteq> []"
  shows "trim (replicate j CHR ''/'' @ path) = replicate j CHR ''/'' @ path"
proof (rule trim_keeps)
  show "replicate j CHR ''/'' @ path \<noteq> []" using assms(2) by simp
  show "\<not> isSpace (hd (replicate j CHR ''/'' @ path))"
    using trim_ends [OF assms] by (cases j) (simp_all add: slash_not_space)
  show "\<not> isSpace (last (replicate j CHR ''/'' @ path))"
    using trim_ends [OF assms] assms(2) by simp
qed

lemma collapse_double:
  "collapseSlashes (a @ CHR ''/'' # CHR ''/'' # b) = collapseSlashes (a @ CHR ''/'' # b)"
  by (induction a rule: collapseSlashes.induct) (simp_all add: isSlash_def)

lemma collapse_run_right:
  "collapseSlashes (a @ CHR ''/'' # replicate j CHR ''/'' @ b) = collapseSlashes (a @ CHR ''/'' # b)"
  by (induction j) (simp_all add: collapse_double)

lemma collapse_run_left:
  "collapseSlashes (a @ replicate i CHR ''/'' @ CHR ''/'' # b) = collapseSlashes (a @ CHR ''/'' # b)"
proof (induction i arbitrary: a)
  case 0
  show ?case by simp
next
  case (Suc i)
  have "collapseSlashes (a @ replicate (Suc i) CHR ''/'' @ CHR ''/'' # b)
        = collapseSlashes ((a @ ''/'') @ replicate i CHR ''/'' @ CHR ''/'' # b)" by simp
  also have "\<dots> = collapseSlashes ((a @ ''/'') @ CHR ''/'' # b)" by (rule Suc.IH)
  also have "\<dots> = collapseSlashes (a @ CHR ''/'' # b)" using collapse_double [of a b] by simp
  finally show ?case .
qed

lemma collapse_head:
  "xs \<noteq> [] \<Longrightarrow> collapseSlashes xs \<noteq> [] \<and> hd (collapseSlashes xs) = hd xs"
  by (induction xs rule: collapseSlashes.induct) (auto simp: isSlash_def)

lemma hasDoubleSlash_Cons:
  "hasDoubleSlash (c # r) = ((isSlash c \<and> r \<noteq> [] \<and> isSlash (hd r)) \<or> hasDoubleSlash r)"
  by (cases r) auto

lemma collapse_no_double: "\<not> hasDoubleSlash (collapseSlashes xs)"
proof (induction xs rule: collapseSlashes.induct, goal_cases)
  case (1 c d cs)
  have h: "collapseSlashes (d # cs) \<noteq> [] \<and> hd (collapseSlashes (d # cs)) = d"
    using collapse_head [of "d # cs"] by simp
  show ?case
  proof (cases "isSlash c \<and> isSlash d")
    case True
    with 1 show ?thesis by simp
  next
    case False
    with 1 h show ?thesis by (auto simp: hasDoubleSlash_Cons)
  qed
next
  case 2
  show ?case by simp
next
  case (3 v)
  show ?case by simp
qed

lemma no_double_tl: "\<not> hasDoubleSlash xs \<Longrightarrow> \<not> hasDoubleSlash (tl xs)"
  by (cases xs) (auto simp: hasDoubleSlash_Cons)

lemma collapse_joint:
  "a = [] \<or> \<not> isSlash (last a) \<Longrightarrow> b = [] \<or> \<not> isSlash (hd b) \<Longrightarrow>
   collapseSlashes (a @ CHR ''/'' # b) = collapseSlashes a @ CHR ''/'' # collapseSlashes b"
proof (induction a rule: collapseSlashes.induct, goal_cases)
  case (1 c d cs)
  then show ?case by (auto split: if_splits)
next
  case 2
  then show ?case by (cases b) (auto simp: isSlash_def)
next
  case (3 v)
  then show ?case by (cases b) (auto simp: isSlash_def)
qed

lemma rs_both:
  assumes "trim base = base" and "trim path = path"
    and "base \<noteq> []" and "base \<noteq> ''/''" and "path \<noteq> []" and "path \<noteq> ''/''"
  shows "combinePaths_RouteScanner base path = ''/'' @ collapseSlashes (base @ ''/'' @ path)"
  using assms by (simp add: combinePaths_RouteScanner_def truthy_def)

lemma rs_joint:
  assumes "trim base = base" and "trim path = path"
    and "base \<noteq> []" and "base \<noteq> ''/''" and "path \<noteq> []" and "path \<noteq> ''/''"
  shows "combinePaths_RouteScanner (base @ replicate i CHR ''/'') (replicate j CHR ''/'' @ path)
         = combinePaths_RouteScanner base path"
proof -
  have b: "base @ replicate i CHR ''/'' \<noteq> ''/''"
    using assms(3,4) by (cases base) auto
  have p: "replicate j CHR ''/'' @ path \<noteq> ''/''"
    using assms(5,6) by (cases j) (auto simp: append_eq_Cons_conv)
  have "combinePaths_RouteScanner (base @ replicate i CHR ''/'') (replicate j CHR ''/'' @ path)
        = ''/'' @ collapseSlashes ((base @ replicate i CHR ''/'') @ ''/'' @ replicate j CHR ''/'' @ path)"
    using assms(3,5) b p
    by (intro rs_both trim_trailing_slashes trim_leading_slashes assms) simp_all
  also have "\<dots> = ''/'' @ collapseSlashes (base @ replicate i CHR ''/'' @ CHR ''/'' # replicate j CHR ''/'' @ path)"
    by simp
  also have "\<dots> = ''/'' @ collapseSlashes (base @ CHR ''/'' # replicate j CHR ''/'' @ path)"
    by (simp add: collapse_run_left)
  also have "\<dots> = ''/'' @ collapseSlashes (base @ CHR ''/'' # path)"
    by (simp add: collapse_run_right)
  also have "\<dots> = combinePaths_RouteScanner base path"
    using rs_both [OF assms] by simp
  finally show ?thesis .
qed

lemma rs_leading:
  "combinePaths_RouteScanner base path \<noteq> [] \<and> hd (combinePaths_RouteScanner base path) = CHR ''/''"
  using collapse_head [of "CHR ''/'' # path"] collapse_head [of "CHR ''/'' # base"]
  by (simp add: combinePaths_RouteScanner_def)

lemma rs_no_double: "\<not> hasDoubleSlash (tl (combinePaths_RouteScanner base path))"
  by (simp add: combinePaths_RouteScanner_def collapse_no_double no_double_tl)

lemma rs_between:
  assumes "trim base = base" and "trim path = path"
    and "base \<noteq> []" and "\<not> isSlash (last base)" and "path \<noteq> []" and "\<not> isSlash (hd path)"
  shows "combinePaths_RouteScanner base path
         = ''/'' @ collapseSlashes base @ ''/'' @ collapseSlashes path"
proof -
  from assms(3,4) have b: "base \<noteq> ''/''" by (auto simp: isSlash_def)
  from assms(5,6) have p: "path \<noteq> ''/''" by (auto simp: isSlash_def)
  have "combinePaths_RouteScanner base path = ''/'' @ collapseSlashes (base @ ''/'' @ path)"
    by (rule rs_both [OF assms(1,2,3) b assms(5) p])
  also have "\<dots> = ''/'' @ collapseSlashes base @ ''/'' @ collapseSlashes path"
    using collapse_joint [of base path] assms(4,6) by simp
  finally show ?thesis .
qed

lemma rs_example1: "combinePaths_RouteScanner ''admin/'' ''/profile'' = ''/admin/profile''"
  by (simp add: combinePaths_RouteScanner_def truthy_def trim_def isSpace_def charCode_def isSlash_def)

lemma rs_example2: "combinePaths_RouteScanner ''admin'' ''profile'' = ''/admin/profile''"
  by (simp add: combinePaths_RouteScanner_def truthy_def trim_def isSpace_def charCode_def isSlash_def)

lemma rs_example3: "combinePaths_RouteScanner ''admin'' ''profile/'' = ''/admin/profile/''"
  by (simp add: combinePaths_RouteScanner_def truthy_def trim_def isSpace_def charCode_def isSlash_def)

section \<open>Lemmas on the placeholder rewrite and the keys of the paths\<close>

lemma takeWhile_app_stop: "\<not> P y \<Longrightarrow> takeWhile P (xs @ y # ys) = takeWhile P xs"
  by (induction xs) auto

lemma dropWhile_app_stop: "\<not> P y \<Longrightarrow> dropWhile P (xs @ y # ys) = dropWhile P xs @ y # ys"
  by (induction xs) auto

lemma slash_not_word: "\<not> isWordChar CHR ''/''"
  by (simp add: isWordChar_def charCode_def)

lemma colon_not_word: "\<not> isWordChar CHR '':''"
  by (simp add: isWordChar_def charCode_def)

lemma brace_not_word: "\<not> isWordChar CHR ''{''"
  by (simp add: isWordChar_def charCode_def)

lemma replace_distrib_slash:
  "replaceColonParams (a @ CHR ''/'' # b) = replaceColonParams a @ CHR ''/'' # replaceColonParams b"
proof (induction a rule: replaceColonParams.induct)
  case 1
  show ?case by simp
next
  case (2 c cs)
  then show ?case
    by (simp add: takeWhile_app_stop dropWhile_app_stop slash_not_word)
qed

lemma replace_no_colon: "CHR '':'' \<notin> set s \<Longrightarrow> replaceColonParams s = s"
  by (induction s) auto

lemma word_run_stops:
  assumes "list_all isWordChar w" and "b = [] \<or> \<not> isWordChar (hd b)"
  shows "takeWhile isWordChar (w @ b) = w" and "dropWhile isWordChar (w @ b) = b"
proof -
  from assms(2) have tb: "takeWhile isWordChar b = []" and db: "dropWhile isWordChar b = b"
    by (cases b; simp)+
  from assms(1) have all: "\<forall>x \<in> set w. isWordChar x" by (simp add: list_all_iff)
  from all tb show "takeWhile isWordChar (w @ b) = w" by (simp add: takeWhile_append2)
  from all db show "dropWhile isWordChar (w @ b) = b" by (simp add: dropWhile_append2)
qed

lemma replace_token:
  assumes "w \<noteq> []" and "list_all isWordChar w"
  shows "replaceColonParams (CHR '':'' # w) = ''{'' @ w @ ''}''"
proof -
  from assms(2) have tw: "takeWhile isWordChar w = w" and dw: "dropWhile isWordChar w = []"
    by (simp_all add: list_all_iff)
  show ?thesis using assms(1) by (simp add: tw dw)
qed

lemma replace_placeholder:
  assumes "w \<noteq> []" and "list_all isWordChar w" and "b = [] \<or> \<not> isWordChar (hd b)"
  shows "replaceColonParams (a @ CHR '':'' # w @ b)
         = replaceColonParams a @ ''{'' @ w @ ''}'' @ replaceColonParams b"
proof (induction a rule: replaceColonParams.induct)
  case 1
  have tw: "takeWhile isWordChar (w @ b) = w" and dw: "dropWhile isWordChar (w @ b) = b"
    using word_run_stops [OF assms(2,3)] by simp_all
  show ?case using assms(1) by (simp add: tw dw)
next
  case (2 c cs)
  then show ?case
    by (simp add: takeWhile_app_stop dropWhile_app_stop colon_not_word)
qed

lemma replace_lone_colon:
  assumes "b = [] \<or> \<not> isWordChar (hd b)"
  shows "replaceColonParams (a @ CHR '':'' # b) = replaceColonParams a @ CHR '':'' # replaceColonParams b"
proof (induction a rule: replaceColonParams.induct)
  case 1
  from assms have "takeWhile isWordChar b = []" by (cases b) simp_all
  then show ?case by simp
next
  case (2 c cs)
  then show ?case
    by (simp add: takeWhile_app_stop dropWhile_app_stop colon_not_word)
qed

lemma hasColonToken_Cons:
  "hasColonToken (c # r) = ((c = CHR '':'' \<and> r \<noteq> [] \<and> isWordChar (hd r)) \<or> hasColonToken r)"
  by (cases r) auto

lemma hasColonToken_append_clean:
  "CHR '':'' \<notin> set xs \<Longrightarrow> hasColonToken (xs @ ys) = hasColonToken ys"
  by (induction xs) (auto simp: hasColonToken_Cons)

lemma replace_head_not_word:
  "cs \<noteq> [] \<Longrightarrow> \<not> isWordChar (hd cs) \<Longrightarrow>
   replaceColonParams cs \<noteq> [] \<and> \<not> isWordChar (hd (replaceColonParams cs))"
  by (cases cs) (auto simp: brace_not_word)

lemma word_run_no_colon: "CHR '':'' \<notin> set (takeWhile isWordChar cs)"
proof
  assume "CHR '':'' \<in> set (takeWhile isWordChar cs)"
  then have "isWordChar CHR '':''" by (rule set_takeWhileD [THEN conjunct2])
  then show False by (simp add: colon_not_word)
qed

lemma replace_no_token: "\<not> hasColonToken (replaceColonParams s)"
proof (induction s rule: replaceColonParams.induct)
  case 1
  show ?case by simp
next
  case (2 c cs)
  show ?case
  proof (cases "c = CHR '':'' \<and> takeWhile isWordChar cs \<noteq> []")
    case True
    have "CHR '':'' \<notin> set (''{'' @ takeWhile isWordChar cs @ ''}'')"
      using word_run_no_colon [of cs] by simp
    then have "hasColonToken ((''{'' @ takeWhile isWordChar cs @ ''}'') @ replaceColonParams (dropWhile isWordChar cs))
               = hasColonToken (replaceColonParams (dropWhile isWordChar cs))"
      by (rule hasColonToken_append_clean)
    with True 2(1) show ?thesis by simp
  next
    case False
    then have eq: "replaceColonParams (c # cs) = c # replaceColonParams cs" by auto
    from False 2(2) have ih: "\<not> hasColonToken (replaceColonParams cs)" by blast
    show ?thesis
    proof (cases "c = CHR '':'' \<and> cs \<noteq> []")
      case True
      with False have "takeWhile isWordChar cs = []" by simp
      with True have "\<not> isWordChar (hd cs)" by (cases cs) (auto split: if_splits)
      with True have "\<not> isWordChar (hd (replaceColonParams cs))"
        using replace_head_not_word [of cs] by simp
      with ih show ?thesis unfolding eq by (simp add: hasColonToken_Cons)
    next
      case False
      with ih show ?thesis unfolding eq by (auto simp add: hasColonToken_Cons)
    qed
  qed
qed

lemma keys_setEntry: "fst ` set (setEntry k v es) = insert k (fst ` set es)"
proof (induction es)
  case Nil
  show ?case by simp
next
  case (Cons e es)
  obtain k' v' where e: "e = (k', v')" by (cases e)
  show ?case
  proof (cases "k' = k")
    case True
    then show ?thesis by (simp add: e)
  next
    case False
    then show ?thesis using Cons.IH by (simp add: e insert_commute)
  qed
qed

lemma keys_insertIndex: "fst ` set (insertIndex k v es) = insert k (fst ` set es)"
proof (induction es)
  case Nil
  show ?case by simp
next
  case (Cons e es)
  obtain k' v' where e: "e = (k', v')" by (cases e)
  show ?case
  proof (cases "isArrayIndex k' \<and> digitsValue k' < digitsValue k")
    case True
    then show ?thesis using Cons.IH by (simp add: e insert_commute)
  next
    case False
    then show ?thesis by (auto simp: e)
  qed
qed

lemma keys_setProperty: "fst ` set (setProperty k v es) = insert k (fst ` set es)"
  by (simp add: setProperty_def keys_setEntry keys_insertIndex)

lemma setProperty_first: "setProperty k v [] = [(k, v)]"
  by (simp add: setProperty_def)

lemma map_of_None_keys: "map_of es k = None \<longleftrightarrow> k \<notin> fst ` set es"
  by (simp add: map_of_eq_None_iff)

lemma methodField_listed: "methodField m \<in> set methodFields"
  by (cases m) (simp_all add: methodFields_def)

lemma proto_inherited: "inherits added ''__proto__''"
  by (simp add: inherits_def objectPrototypeMembers_def)

lemma addRoute_keys:
  "fst ` set (fst (addRoute options controller state route))
   = fst ` set (fst state)
     \<union> (if inherits (snd state) (fullPath options controller route) then {}
        else {fullPath options controller route})"
proof (cases "map_of (fst state) (fullPath options controller route)")
  case None
  then show ?thesis
    using proto_inherited [of "snd state"]
    by (auto simp: addRoute_def Let_def keys_setProperty)
next
  case (Some item)
  then have "fullPath options controller route \<in> fst ` set (fst state)"
    using map_of_None_keys [of "fst state" "fullPath options controller route"] by simp
  with Some show ?thesis by (auto simp: addRoute_def Let_def keys_setProperty)
qed

lemma addRoute_added:
  "set (snd (addRoute options controller state route)) \<subseteq> set (snd state) \<union> set methodFields"
  using methodField_listed [of "r_httpMethod route"]
  by (auto simp: addRoute_def Let_def split: option.splits)

lemma addRoute_added_same:
  "fullPath options controller route \<noteq> ''__proto__'' \<Longrightarrow>
   snd (addRoute options controller state route) = snd state"
  by (auto simp: addRoute_def Let_def split: option.splits)

lemma routes_keys_subset:
  "fst ` set (fst (foldl (addRoute options controller) state routes))
   \<subseteq> fst ` set (fst state) \<union> fullPath options controller ` set routes"
proof (induction routes arbitrary: state)
  case Nil
  show ?case by simp
next
  case (Cons r rs)
  have "fst ` set (fst (addRoute options controller state r))
        \<subseteq> fst ` set (fst state) \<union> {fullPath options controller r}"
    by (auto simp: addRoute_keys split: if_splits)
  with Cons.IH [of "addRoute options controller state r"] show ?case by auto
qed

lemma routes_keys_mono:
  "fst ` set (fst state) \<subseteq> fst ` set (fst (foldl (addRoute options controller) state routes))"
proof (induction routes arbitrary: state)
  case Nil
  show ?case by simp
next
  case (Cons r rs)
  have "fst ` set (fst state) \<subseteq> fst ` set (fst (addRoute options controller state r))"
    by (auto simp: addRoute_keys)
  with Cons.IH [of "addRoute options controller state r"] show ?case by auto
qed

lemma routes_added:
  "set (snd (foldl (addRoute options controller) state routes)) \<subseteq> set (snd state) \<union> set methodFields"
proof (induction routes arbitrary: state)
  case Nil
  show ?case by simp
next
  case (Cons r rs)
  from Cons.IH [of "addRoute options controller state r"] addRoute_added [of options controller state r]
  show ?case by auto
qed

lemma not_inherited_later:
  assumes "\<not> inherits added k" and "k \<notin> set methodFields" and "set added' \<subseteq> set added \<union> set methodFields"
  shows "\<not> inherits added' k"
  using assms by (auto simp: inherits_def)

lemma routes_creates:
  assumes "\<not> inherits (snd state) k" and "k \<notin> set methodFields"
    and "k \<in> fst ` set (fst state) \<or> k \<in> fullPath options controller ` set routes"
  shows "k \<in> fst ` set (fst (foldl (addRoute options controller) state routes))"
  using assms
proof (induction routes arbitrary: state)
  case Nil
  then show ?case by simp
next
  case (Cons r rs)
  have later: "\<not> inherits (snd (addRoute options controller state r)) k"
    by (rule not_inherited_later [OF Cons.prems(1,2) addRoute_added])
  have "k \<in> fst ` set (fst (addRoute options controller state r))
        \<or> k \<in> fullPath options controller ` set rs"
    using Cons.prems(1,3) by (auto simp: addRoute_keys)
  with later Cons.prems(2) show ?case using Cons.IH [of "addRoute options controller state r"] by simp
qed

lemma controllers_keys_subset:
  "fst ` set (fst (foldl (\<lambda>state controller. foldl (addRoute options controller) state (c_routes controller))
                     state controllers))
   \<subseteq> fst ` set (fst state)
      \<union> (\<Union>controller \<in> set controllers. fullPath options controller ` set (c_routes controller))"
proof (induction controllers arbitrary: state)
  case Nil
  show ?case by simp
next
  case (Cons c cs)
  let ?step = "\<lambda>state controller. foldl (addRoute options controller) state (c_routes controller)"
  let ?state = "foldl (addRoute options c) state (c_routes c)"
  have a: "fst ` set (fst (foldl ?step ?state cs))
           \<subseteq> fst ` set (fst ?state)
              \<union> (\<Union>controller \<in> set cs. fullPath options controller ` set (c_routes controller))"
    by (rule Cons.IH)
  have b: "fst ` set (fst ?state) \<subseteq> fst ` set (fst state) \<union> fullPath options c ` set (c_routes c)"
    by (rule routes_keys_subset)
  have u: "(\<Union>controller \<in> set (c # cs). fullPath options controller ` set (c_routes controller))
           = fullPath options c ` set (c_routes c)
             \<union> (\<Union>controller \<in> set cs. fullPath options controller ` set (c_routes controller))"
    by simp
  have "fst ` set (fst (foldl ?step ?state cs))
        \<subseteq> fst ` set (fst state)
           \<union> (\<Union>controller \<in> set (c # cs). fullPath options controller ` set (c_routes controller))"
    unfolding u using a b by blast
  then show ?case by simp
qed

lemma controllers_keys_mono:
  "fst ` set (fst state)
   \<subseteq> fst ` set (fst (foldl (\<lambda>state controller. foldl (addRoute options controller) state (c_routes controller))
                        state controllers))"
proof (induction controllers arbitrary: state)
  case Nil
  show ?case by simp
next
  case (Cons c cs)
  let ?step = "\<lambda>state controller. foldl (addRoute options controller) state (c_routes controller)"
  let ?state = "foldl (addRoute options c) state (c_routes c)"
  have a: "fst ` set (fst ?state) \<subseteq> fst ` set (fst (foldl ?step ?state cs))"
    by (rule Cons.IH)
  have b: "fst ` set (fst state) \<subseteq> fst ` set (fst ?state)"
    by (rule routes_keys_mono)
  from b a have "fst ` set (fst state) \<subseteq> fst ` set (fst (foldl ?step ?state cs))"
    by (rule subset_trans)
  then show ?case by simp
qed

lemma controllers_added:
  "set (snd (foldl (\<lambda>state controller. foldl (addRoute options controller) state (c_routes controller))
                state controllers))
   \<subseteq> set (snd state) \<union> set methodFields"
proof (induction controllers arbitrary: state)
  case Nil
  show ?case by simp
next
  case (Cons c cs)
  let ?step = "\<lambda>state controller. foldl (addRoute options controller) state (c_routes controller)"
  let ?state = "foldl (addRoute options c) state (c_routes c)"
  have a: "set (snd (foldl ?step ?state cs)) \<subseteq> set (snd ?state) \<union> set methodFields"
    by (rule Cons.IH)
  have b: "set (snd ?state) \<subseteq> set (snd state) \<union> set methodFields"
    by (rule routes_added)
  from a b have "set (snd (foldl ?step ?state cs)) \<subseteq> set (snd state) \<union> set methodFields"
    by blast
  then show ?case by simp
qed

lemma controllers_creates:
  assumes "\<not> inherits (snd state) k" and "k \<notin> set methodFields"
    and "controller \<in> set controllers" and "route \<in> set (c_routes controller)"
    and "k = fullPath options controller route"
  shows "k \<in> fst ` set (fst (foldl (\<lambda>state controller. foldl (addRoute options controller) state (c_routes controller))
                                state controllers))"
  using assms(1,3)
proof (induction controllers arbitrary: state)
  case Nil
  then show ?case by simp
next
  case (Cons c cs)
  let ?step = "\<lambda>state controller. foldl (addRoute options controller) state (c_routes controller)"
  let ?state = "foldl (addRoute options c) state (c_routes c)"
  have "k \<in> fst ` set (fst (foldl ?step ?state cs))"
  proof (cases "controller = c")
    case True
    with assms(4,5) have "k \<in> fullPath options c ` set (c_routes c)" by blast
    then have "k \<in> fst ` set (fst state) \<or> k \<in> fullPath options c ` set (c_routes c)" by simp
    then have "k \<in> fst ` set (fst ?state)"
      by (rule routes_creates [OF Cons.prems(1) assms(2)])
    then show ?thesis using controllers_keys_mono [of ?state options cs] by blast
  next
    case False
    with Cons.prems(2) have "controller \<in> set cs" by simp
    moreover have "\<not> inherits (snd ?state) k"
      by (rule not_inherited_later [OF Cons.prems(1) assms(2) routes_added])
    ultimately show ?thesis by (rule Cons.IH [rotated])
  qed
  then show ?case by simp
qed

lemma keys_generatePaths_subset:
  "fst ` set (fst (generatePaths controllers options added))
   \<subseteq> (\<Union>controller \<in> set controllers. fullPath options controller ` set (c_routes controller))"
  using controllers_keys_subset [of options "([], added)" controllers]
  by (simp add: generatePaths_def)

lemma keys_generatePaths_member:
  assumes "controller \<in> set controllers" and "route \<in> set (c_routes controller)"
    and "\<not> inherits added (fullPath options controller route)"
    and "fullPath options controller route \<notin> set methodFields"
  shows "fullPath options controller route \<in> fst ` set (fst (generatePaths controllers options added))"
proof -
  have "\<not> inherits (snd ([] :: (string \<times> PathItemObject) list, added)) (fullPath options controller route)"
    using assms(3) by simp
  then show ?thesis
    unfolding generatePaths_def
    by (rule controllers_creates [OF _ assms(4) assms(1) assms(2) refl])
qed

lemma added_generatePaths:
  "set (snd (generatePaths controllers options added)) \<subseteq> set added \<union> set methodFields"
  using controllers_added [of options "([], added)" controllers]
  by (simp add: generatePaths_def)

lemma generatePaths_single:
  assumes "c_routes controller = [route]"
    and "\<not> inherits added (fullPath options controller route)"
  shows "generatePaths [controller] options added
         = ([(fullPath options controller route,
              setOperation (r_httpMethod route) (createOperation route controller) emptyPathItem)],
            added)"
  using assms proto_inherited [of added]
  by (auto simp: generatePaths_def addRoute_def Let_def setProperty_first)

lemma fullPath_no_token: "\<not> hasColonToken (fullPath options controller route)"
  by (simp add: fullPath_def replace_no_token)

lemma keys_no_token:
  "\<forall>key \<in> fst ` set (fst (generatePaths controllers options added)). \<not> hasColonToken key"
proof
  fix key
  assume "key \<in> fst ` set (fst (generatePaths controllers options added))"
  with keys_generatePaths_subset [of controllers options added]
  have "key \<in> (\<Union>controller \<in> set controllers. fullPath options controller ` set (c_routes controller))"
    by (rule subsetD)
  then obtain controller route where "key = fullPath options controller route" by blast
  then show "\<not> hasColonToken key" by (simp add: fullPath_no_token)
qed

section \<open>Lemmas on parameters, servers and the round trip\<close>

lemma pushParameters_eq:
  "pushParameters params parameters
   = parameters @ map parameterObject (filter (\<lambda>p. pm_in p = InPath \<or> pm_in p = InQuery) params)"
  by (induction params arbitrary: parameters) auto

lemma createParameters_eq:
  "createParameters params =
     (let kept = filter (\<lambda>p. pm_in p = InPath \<or> pm_in p = InQuery) params
      in if kept = [] then None else Some (map parameterObject kept))"
  by (simp add: createParameters_def pushParameters_eq Let_def)

lemma op_parameters_createOperation:
  "op_parameters (createOperation route controller) = createParameters (routeParams route)"
  by (simp add: createOperation_def routeParams_def Let_def split: option.splits)

lemma parametersOf_createOperation:
  "parametersOf (createOperation route controller)
   = map parameterObject (filter (\<lambda>p. pm_in p = InPath \<or> pm_in p = InQuery) (routeParams route))"
  by (simp add: parametersOf_def op_parameters_createOperation createParameters_eq Let_def)

lemma buildParamMetadata_required:
  "buildParamMetadata param decorator decoratorName = Some pm \<Longrightarrow>
   (pm_in pm = InPath \<longleftrightarrow> decoratorName = ''Param'') \<and> pm_required pm = (pm_in pm = InPath)"
  by (auto simp: buildParamMetadata_def Let_def split: if_splits)

lemma extractFromDecorators_inv:
  "\<forall>pm \<in> set params. pm_required pm = (pm_in pm = InPath) \<Longrightarrow>
   \<forall>pm \<in> set (extractFromDecorators param decorators params). pm_required pm = (pm_in pm = InPath)"
proof (induction decorators arbitrary: params)
  case Nil
  then show ?case by simp
next
  case (Cons d ds)
  show ?case
  proof (cases "dec_name d \<noteq> ''Body'' \<and> dec_name d \<in> set [''Param'', ''Query'', ''Headers'']")
    case True
    obtain pm where pm: "buildParamMetadata param d (dec_name d) = Some pm"
      by (simp add: buildParamMetadata_def Let_def)
    then have "pm_required pm = (pm_in pm = InPath)"
      using buildParamMetadata_required by blast
    with Cons.prems have "\<forall>q \<in> set (params @ [pm]). pm_required q = (pm_in q = InPath)" by simp
    then have "\<forall>q \<in> set (extractFromDecorators param ds (params @ [pm])). pm_required q = (pm_in q = InPath)"
      by (rule Cons.IH)
    with True pm show ?thesis by simp
  next
    case False
    then have "extractFromDecorators param (d # ds) params = extractFromDecorators param ds params"
      by auto
    with Cons show ?thesis by simp
  qed
qed

lemma extractParameters_inv_gen:
  "\<forall>pm \<in> set acc. pm_required pm = (pm_in pm = InPath) \<Longrightarrow>
   \<forall>pm \<in> set (foldl (\<lambda>params param. extractFromDecorators param (pd_decorators param) params) acc parameters).
      pm_required pm = (pm_in pm = InPath)"
proof (induction parameters arbitrary: acc)
  case Nil
  then show ?case by simp
next
  case (Cons p ps)
  from Cons.prems have "\<forall>pm \<in> set (extractFromDecorators p (pd_decorators p) acc). pm_required pm = (pm_in pm = InPath)"
    by (rule extractFromDecorators_inv)
  then show ?case using Cons.IH by simp
qed

lemma extractParameters_inv:
  "\<forall>pm \<in> set (extractParameters parameters). pm_required pm = (pm_in pm = InPath)"
  unfolding extractParameters_def by (rule extractParameters_inv_gen) simp

lemmas scan_eval = extractParameters_def buildParamMetadata_def removeQuotes_def idParameter_def
  traceParameter_def

lemma extract_id_trace:
  "extractParameters [idParameter, traceParameter] =
     [\<lparr> pm_name = ''id'', pm_in = InPath,
         pm_type = Some (TypeMetadata ''string'' True False False True None None None None),
         pm_required = True, pm_description = None \<rparr>,
      \<lparr> pm_name = ''x'', pm_in = InHeader,
         pm_type = Some (TypeMetadata ''string'' True False False False None None None None),
         pm_required = False, pm_description = None \<rparr>]"
  by (simp add: scan_eval)

lemma extract_trace:
  "extractParameters [traceParameter] =
     [\<lparr> pm_name = ''x'', pm_in = InHeader,
         pm_type = Some (TypeMetadata ''string'' True False False False None None None None),
         pm_required = False, pm_description = None \<rparr>]"
  by (simp add: scan_eval)

lemma generateDefaultServers_single:
  assumes "o_versioning options = Some versioning" "vg_enabled versioning"
    "vg_prefix versioning = Some ''/api''" "c_version controller = Some ''v1''"
  shows "generateDefaultServers options [controller]
         = [\<lparr> srv_url = ''/api/v1'', srv_description = Some ''API V1'' \<rparr>]"
proof -
  have u: "toUpperCase ''v1'' = ''V1''" by code_simp
  show ?thesis using assms
    by (simp add: generateDefaultServers_def versioningEnabled_def detectedVersions_def truthy_def
          versioningPrefix_def orElse_def sortBy_def u Let_def)
qed

lemma combinedPath_single:
  assumes "o_versioning options = Some versioning" "vg_enabled versioning"
    "vg_prefix versioning = Some ''/api''" "c_version controller = Some ''v1''"
    "c_path controller = ''admin''" "r_path route = ''profile''"
  shows "fullPath options controller route = ''api/v1/admin/profile''"
  using assms by (simp add: path_eval string_eval)

lemma not_inherited_profile: "\<not> inherits [] ''api/v1/admin/profile''"
  by (simp add: inherits_def objectPrototypeMembers_def)

section \<open>Lemmas on categories, required properties, the service and the resolver\<close>

lemma startsWith_self: "startsWith s s"
  by (simp add: startsWith_def)

lemma findNormalized_find:
  "findNormalized nc mapping
   = map_option snd (find (\<lambda>(key, v). startsWith nc (normalizeCategory key)) mapping)"
  by (induction mapping) (auto simp: Let_def startsWith_self)

lemma find_None_weaker:
  "find P xs = None \<Longrightarrow> (\<And>x. Q x \<Longrightarrow> P x) \<Longrightarrow> find Q xs = None"
  by (induction xs) (auto split: if_splits)

lemma find_not_None: "x \<in> set xs \<Longrightarrow> P x \<Longrightarrow> find P xs \<noteq> None"
  by (induction xs) auto

lemma findMappedCategory_cases:
  "findMappedCategory added category mapping =
     (case map_of mapping category of
        Some v \<Rightarrow>
          if v \<noteq> [] then Some (Text v)
          else map_option (\<lambda>(key, v). Text v)
                 (find (\<lambda>(key, v). startsWith (normalizeCategory category) (normalizeCategory key)) mapping)
      | None \<Rightarrow>
          if category \<in> set objectPrototypeMembers \<or> category \<in> set added then Some (Member category)
          else map_option (\<lambda>(key, v). Text v)
                 (find (\<lambda>(key, v). startsWith (normalizeCategory category) (normalizeCategory key)) mapping))"
proof -
  have m: "map_option Text (map_option snd x) = map_option (\<lambda>(key, v). Text v) x"
    for x :: "(string \<times> string) option"
    by (cases x) auto
  show ?thesis
    by (simp add: findMappedCategory_def readMapping_def inherits_def truthy_def findNormalized_find m
          split: option.splits)
qed

lemma spec_none_iff:
  assumes "\<not> inherits added category"
  shows "spec_findMappedCategory category mapping = None
         \<longleftrightarrow> findMappedCategory added category mapping = None"
proof
  assume "spec_findMappedCategory category mapping = None"
  then have "map_of mapping category = None"
    and "find (\<lambda>(key, v). startsWith (normalizeCategory category) (normalizeCategory key)) mapping = None"
    by (auto simp: spec_findMappedCategory_def split: option.splits prod.splits)
  with assms show "findMappedCategory added category mapping = None"
    by (simp add: findMappedCategory_def readMapping_def findNormalized_find)
next
  assume a: "findMappedCategory added category mapping = None"
  have m: "map_of mapping category = None"
  proof (rule ccontr)
    assume "map_of mapping category \<noteq> None"
    then obtain v where v: "map_of mapping category = Some v" by auto
    then have "(category, v) \<in> set mapping" by (rule map_of_SomeD)
    then have "find (\<lambda>(key, v). startsWith (normalizeCategory category) (normalizeCategory key)) mapping \<noteq> None"
      by (rule find_not_None) (simp add: startsWith_self)
    with a v show False
      by (auto simp: findMappedCategory_def readMapping_def findNormalized_find split: if_splits)
  qed
  with a assms have f: "find (\<lambda>(key, v). startsWith (normalizeCategory category) (normalizeCategory key)) mapping = None"
    by (simp add: findMappedCategory_def readMapping_def findNormalized_find)
  have "find (\<lambda>(key, v). normalizeCategory key = normalizeCategory category) mapping = None"
    by (rule find_None_weaker [OF f]) (auto simp: startsWith_self)
  with m f show "spec_findMappedCategory category mapping = None"
    by (simp add: spec_findMappedCategory_def)
qed

lemma orCategory_cases:
  "orCategory found category =
     (case found of
        None \<Rightarrow> Text category
      | Some (Text v) \<Rightarrow> if v \<noteq> [] then Text v else Text category
      | Some (Member k) \<Rightarrow> Member k)"
  by (simp add: orCategory_def truthy_def split: option.splits CategoryValue.splits)

lemma norm_examples:
  "normalizeCategory ''Admin Auth'' = ''adminauth''"
  "normalizeCategory ''Admin - Auth'' = ''adminauth''"
  "normalizeCategory ''admin'' = ''admin''"
  "normalizeCategory ''admin auth'' = ''adminauth''"
  "normalizeCategory ''Admin'' = ''admin''"
  "normalizeCategory ''user'' = ''user''"
  "normalizeCategory ''constructor'' = ''constructor''"
  by code_simp+

lemma requiredByValidators_eq:
  "requiredByValidators props required
   = required @ map p_name (filter (\<lambda>p. isRequired p \<and> \<not> isOptional p) props)"
  by (induction props arbitrary: required) auto

lemma requiredByFlag_eq:
  "requiredByFlag props required = required @ map p_name (filter p_required props)"
  by (induction props arbitrary: required) auto

lemma listed_object_type:
  assumes "\<not> t_isPrimitive tm" and "\<not> (t_isArray tm \<and> t_elementType tm \<noteq> None)"
    and "\<not> (t_isEnum tm \<and> t_enumValues tm \<noteq> None)" and "t_properties tm = Some props"
  shows "listedRequired (convertTypeToSchema (Some tm))
         = map p_name (filter (\<lambda>p. isRequired p \<and> \<not> isOptional p) props)"
  using assms by (cases tm) (auto simp: listedRequired_def requiredByValidators_eq Let_def)

lemma listed_dto:
  "listedRequired (convertDtoToSchema dto) = map p_name (filter p_required (d_properties dto))"
  by (simp add: listedRequired_def convertDtoToSchema_def requiredByFlag_eq emptyFields_def Let_def)

lemma name_in_filtered:
  assumes "distinct (map p_name props)" and "p \<in> set props"
  shows "p_name p \<in> set (map p_name (filter P props)) \<longleftrightarrow> P p"
proof
  assume "p_name p \<in> set (map p_name (filter P props))"
  then obtain q where q: "q \<in> set props" "P q" "p_name q = p_name p" by auto
  with assms have "q = p" by (meson distinct_map inj_onD)
  with q show "P p" by simp
next
  assume "P p"
  with assms(2) show "p_name p \<in> set (map p_name (filter P props))" by auto
qed

lemma requestBody_schema:
  "r_requestBody route = Some dto \<Longrightarrow> r_httpMethod route \<in> {POST, PUT, PATCH} \<Longrightarrow>
   op_requestBody (createOperation route controller)
   = Some \<lparr> rb_required = True, rb_content = [(''application/json'', convertDtoToSchema dto)] \<rparr>"
  by (simp add: createOperation_def Let_def)

lemma example_flags:
  "isOptional nicknameProperty" "\<not> isRequired nicknameProperty" "p_required nicknameProperty"
  "isRequired titleProperty" "\<not> isOptional titleProperty" "\<not> p_required titleProperty"
  "isRequired bothProperty" "isOptional bothProperty"
  by (simp_all add: isOptional_def isRequired_def nicknameProperty_def titleProperty_def bothProperty_def)

lemma withCategory_same: "withCategory controller (c_category controller) = controller"
  by (simp add: withCategory_def)

lemma typed_unmapped: "typedControllers (unmapped found) = Some found"
proof -
  have "map (\<lambda>controller. withCategory controller (the (categoryText (c_category controller))))
          (unmapped found) = found"
    by (induction found) (simp_all add: unmapped_def withCategory_def)
  then show ?thesis by (simp add: typedControllers_def unmapped_def list_all_iff withCategory_def)
qed

lemma typedControllers_Some_iff:
  "typedControllers controllers \<noteq> None
   \<longleftrightarrow> (\<forall>controller \<in> set controllers. \<forall>k. c_category controller \<noteq> Member k)"
proof -
  have "categoryText c \<noteq> None \<longleftrightarrow> (\<forall>k. c \<noteq> Member k)" for c
    by (cases c) simp_all
  then show ?thesis by (simp add: typedControllers_def list_all_iff)
qed

lemma mapped_is_member:
  "orCategory found category = Member k \<longleftrightarrow> found = Some (Member k)"
  by (simp add: orCategory_cases split: option.splits CategoryValue.splits)

lemma typed_mapped_iff:
  "typedControllers (applyCategoryMapping added found (Some mapping)) \<noteq> None
   \<longleftrightarrow> (\<forall>controller \<in> set found. \<forall>k.
          findMappedCategory added (c_category controller) mapping \<noteq> Some (Member k))"
  unfolding typedControllers_Some_iff
  by (simp add: applyCategoryMapping_def withCategory_def mapped_is_member)

lemma scan_failed: "scan lc options (Inl e) now st = Some (Inl e, st)"
  by (simp add: scan_def)

lemma scan_scanned:
  "scan lc options (Inr found) now st =
     (case typedControllers (applyCategoryMapping (st_added st) found (o_categoryMapping options)) of
        None \<Rightarrow> None
      | Some controllers \<Rightarrow>
          Some (Inr (),
                st\<lparr> st_controllers := controllers,
                    st_openApiSpec := Some (fst (generateFrom (st_added st) lc controllers options)),
                    st_lastScanTime := Some now,
                    st_added := snd (generateFrom (st_added st) lc controllers options) \<rparr>))"
  by (cases "o_categoryMapping options")
     (simp_all add: scan_def applyCategoryMapping_def Let_def split: option.splits)

lemma scan_found:
  assumes "scan lc options (Inr found) now st = Some (outcome, st')"
  shows "outcome = Inr () \<and> st_openApiSpec st' \<noteq> None"
  using assms by (auto simp: scan_scanned split: option.splits)

lemma runScans_some:
  "st_openApiSpec st \<noteq> None \<Longrightarrow> runScans lc options scans st = Some st' \<Longrightarrow>
   st_openApiSpec st' \<noteq> None"
proof (induction scans arbitrary: st)
  case Nil
  then show ?case by simp
next
  case (Cons s scans)
  obtain scanned now where s: "s = (scanned, now)" by (cases s)
  from Cons.prems(2) obtain outcome st1
    where 1: "scan lc options scanned now st = Some (outcome, st1)"
      and 2: "runScans lc options scans st1 = Some st'"
    by (auto simp: s split: option.splits)
  have "st_openApiSpec st1 \<noteq> None"
  proof (cases scanned)
    case (Inl e)
    with 1 Cons.prems(1) show ?thesis by (simp add: scan_failed)
  next
    case (Inr found)
    with 1 show ?thesis using scan_found by blast
  qed
  then show ?case using 2 by (rule Cons.IH)
qed

lemma runScans_none_iff:
  "st_openApiSpec st = None \<Longrightarrow> runScans lc options scans st = Some st' \<Longrightarrow>
   st_openApiSpec st' = None \<longleftrightarrow> (\<forall>s \<in> set scans. isl (fst s))"
proof (induction scans arbitrary: st)
  case Nil
  then show ?case by simp
next
  case (Cons s scans)
  obtain scanned now where s: "s = (scanned, now)" by (cases s)
  from Cons.prems(2) obtain outcome st1
    where 1: "scan lc options scanned now st = Some (outcome, st1)"
      and 2: "runScans lc options scans st1 = Some st'"
    by (auto simp: s split: option.splits)
  show ?case
  proof (cases scanned)
    case (Inl e)
    with 1 have "st1 = st" by (simp add: scan_failed)
    with Cons.IH [of st] Cons.prems(1) 2 Inl show ?thesis by (simp add: s)
  next
    case (Inr found)
    with 1 have "st_openApiSpec st1 \<noteq> None" using scan_found by blast
    then have "st_openApiSpec st' \<noteq> None" using 2 by (rule runScans_some)
    with Inr show ?thesis by (simp add: s)
  qed
qed

lemma resolveType_total: "resolveType_dom (decls, inProgress, h)"
  apply (induction decls inProgress h rule: resolveType.induct)
  apply (rule accpI, erule resolveType_rel.cases, simp_all)+
  done

section \<open>Properties of the specification\<close>

subsection \<open>The round trip of one controller\<close>

text \<open>
  C1, as amended. For a single controller with base path \<open>admin\<close>, category \<open>Admin\<close>,
  version \<open>v1\<close> and one GET route at \<open>profile\<close>, with versioning enabled, the prefix
  \<open>/api\<close> and no configured servers: the paths have exactly the key
  \<open>api/v1/admin/profile\<close> (no leading separator), holding the GET operation of the route
  and no other; the tag list is the one tag \<open>Admin\<close>; the server list is exactly
  \<open>/api/v1\<close> with the description \<open>API V1\<close>.
\<close>

theorem round_trip_scenario:
  assumes "c_path controller = ''admin''" and "c_category controller = ''Admin''"
    and "c_version controller = Some ''v1''" and "c_routes controller = [route]"
    and "r_httpMethod route = GET" and "r_path route = ''profile''"
    and "o_versioning options = Some versioning" and "vg_enabled versioning"
    and "vg_prefix versioning = Some ''/api''" and "o_servers options = None"
  shows "oa_paths (generate localeCompare [controller] options)
           = [(''api/v1/admin/profile'', emptyPathItem\<lparr>pi_get := Some (createOperation route controller)\<rparr>)]
         \<and> map tag_name (oa_tags (generate localeCompare [controller] options)) = [''Admin'']
         \<and> oa_servers (generate localeCompare [controller] options)
             = [\<lparr> srv_url = ''/api/v1'', srv_description = Some ''API V1'' \<rparr>]"
proof -
  have p: "fullPath options controller route = ''api/v1/admin/profile''"
    using assms by (simp add: combinedPath_single)
  have paths: "generatePaths [controller] options []
           = ([(''api/v1/admin/profile'', emptyPathItem\<lparr>pi_get := Some (createOperation route controller)\<rparr>)],
              [])"
    using assms(4,5) generatePaths_single [of controller route "[]" options]
    by (simp add: p not_inherited_profile)
  have servers: "generateDefaultServers options [controller]
         = [\<lparr> srv_url = ''/api/v1'', srv_description = Some ''API V1'' \<rparr>]"
    using assms by (simp add: generateDefaultServers_single)
  show ?thesis using assms(2,10)
    by (simp add: generate_def generateFrom_def paths servers sortBy_def truthy_def)
qed

theorem round_trip_scenario_witness:
  "oa_paths (generate defaultCompare [adminController] versionedOptions)
     = [(''api/v1/admin/profile'', emptyPathItem\<lparr>pi_get := Some (createOperation getProfile adminController)\<rparr>)]
   \<and> map tag_name (oa_tags (generate defaultCompare [adminController] versionedOptions)) = [''Admin'']
   \<and> oa_servers (generate defaultCompare [adminController] versionedOptions)
       = [\<lparr> srv_url = ''/api/v1'', srv_description = Some ''API V1'' \<rparr>]"
  by (rule round_trip_scenario [where versioning = "\<lparr> vg_enabled = True, vg_prefix = Some ''/api'', vg_fallback = None \<rparr>"])
     (simp_all add: adminController_def getProfile_def versionedOptions_def)

text \<open>
  C1 as stated fails on the input of the generator's own test: the key of the paths is
  \<open>api/v1/admin/profile\<close>, not \<open>/api/v1/admin/profile\<close>.
\<close>

theorem round_trip_leading_separator_counterexample:
  "map fst (oa_paths (generate defaultCompare [adminController] versionedOptions)) = [''api/v1/admin/profile'']
   \<and> map fst (oa_paths (generate defaultCompare [adminController] versionedOptions)) \<noteq> [''/api/v1/admin/profile'']"
proof -
  have "fullPath versionedOptions adminController getProfile = ''api/v1/admin/profile''"
    by (rule combinedPath_single [where versioning = "\<lparr> vg_enabled = True, vg_prefix = Some ''/api'', vg_fallback = None \<rparr>"])
       (simp_all add: adminController_def getProfile_def versionedOptions_def)
  moreover have "c_routes adminController = [getProfile]" by (simp add: adminController_def)
  ultimately have "generatePaths [adminController] versionedOptions []
         = ([(''api/v1/admin/profile'',
              setOperation (r_httpMethod getProfile) (createOperation getProfile adminController) emptyPathItem)],
            [])"
    using generatePaths_single [of adminController getProfile "[]" versionedOptions]
    by (simp add: not_inherited_profile)
  then show ?thesis by (simp add: generate_def generateFrom_def)
qed

subsection \<open>The path of a route by the versioning policy\<close>

text \<open>
  C2. For every controller and route. When the options hold a versioning block that is
  enabled and the controller has a (non-empty) version, the path is combined from the
  prefix of the block (\<open>/api\<close> when none, or an empty one, is configured), the detected
  version, the controller path and the route path, whatever the fallback is. When the
  block is enabled and the controller has no version, the configured (non-empty) fallback
  prefix takes the place of prefix and version. When there is no versioning block, or it
  is not enabled, or the controller has no version and no fallback is configured, the
  global prefix (possibly empty) is used. The key of the route in the paths is this
  combination with its placeholders rewritten: the paths have no other keys, and they
  have this key whenever it is not the name of a member that the paths inherit or the
  name of a method field.
\<close>

theorem path_by_versioning_policy:
  "(o_versioning options = Some versioning \<and> vg_enabled versioning
      \<and> c_version controller = Some version \<and> version \<noteq> [] \<longrightarrow>
      combinedPath options controller route =
        combinePaths [(case vg_prefix versioning of
                         None \<Rightarrow> ''/api''
                       | Some prefix \<Rightarrow> if prefix = [] then ''/api'' else prefix),
                      version, c_path controller, r_path route])
   \<and> (o_versioning options = Some versioning \<and> vg_enabled versioning
        \<and> (c_version controller = None \<or> c_version controller = Some [])
        \<and> vg_fallback versioning = Some fallback \<and> fallback \<noteq> [] \<longrightarrow>
      combinedPath options controller route =
        combinePaths [fallback, c_path controller, r_path route])
   \<and> (o_versioning options = None
        \<or> (o_versioning options = Some versioning \<and> \<not> vg_enabled versioning)
        \<or> (o_versioning options = Some versioning
            \<and> (c_version controller = None \<or> c_version controller = Some [])
            \<and> (vg_fallback versioning = None \<or> vg_fallback versioning = Some [])) \<longrightarrow>
      combinedPath options controller route =
        combinePaths [(case o_globalPrefix options of None \<Rightarrow> [] | Some prefix \<Rightarrow> prefix),
                      c_path controller, r_path route])
   \<and> fullPath options controller route = replaceColonParams (combinedPath options controller route)
   \<and> fst ` set (fst (generatePaths controllers options added))
       \<subseteq> (\<Union>c \<in> set controllers. fullPath options c ` set (c_routes c))
   \<and> (controller \<in> set controllers \<and> route \<in> set (c_routes controller)
        \<and> fullPath options controller route \<notin> set objectPrototypeMembers
        \<and> fullPath options controller route \<notin> set added
        \<and> fullPath options controller route \<notin> set methodFields \<longrightarrow>
      fullPath options controller route \<in> fst ` set (fst (generatePaths controllers options added)))"
proof -
  have a: "o_versioning options = Some versioning \<and> vg_enabled versioning
      \<and> c_version controller = Some version \<and> version \<noteq> [] \<longrightarrow>
      combinedPath options controller route =
        combinePaths [(case vg_prefix versioning of
                         None \<Rightarrow> ''/api''
                       | Some prefix \<Rightarrow> if prefix = [] then ''/api'' else prefix),
                      version, c_path controller, r_path route]"
  proof (intro impI, elim conjE)
    assume h: "o_versioning options = Some versioning" "vg_enabled versioning"
      "c_version controller = Some version" "version \<noteq> []"
    from h have e: "versioningEnabled options" by (simp add: versioningEnabled_def)
    from h have v: "truthyOpt (c_version controller)" "orElse (c_version controller) [] = version"
      by (simp_all add: truthyOpt_def truthy_def orElse_def)
    from h have p: "orElse (versioningPrefix options) ''/api''
        = (case vg_prefix versioning of
             None \<Rightarrow> ''/api''
           | Some prefix \<Rightarrow> if prefix = [] then ''/api'' else prefix)"
      by (simp add: versioningPrefix_def orElse_def truthy_def split: option.splits)
    show "combinedPath options controller route =
        combinePaths [(case vg_prefix versioning of
                         None \<Rightarrow> ''/api''
                       | Some prefix \<Rightarrow> if prefix = [] then ''/api'' else prefix),
                      version, c_path controller, r_path route]"
      unfolding combinedPath_def p by (simp add: e v)
  qed
  have b: "o_versioning options = Some versioning \<and> vg_enabled versioning
        \<and> (c_version controller = None \<or> c_version controller = Some [])
        \<and> vg_fallback versioning = Some fallback \<and> fallback \<noteq> [] \<longrightarrow>
      combinedPath options controller route =
        combinePaths [fallback, c_path controller, r_path route]"
  proof (intro impI, elim conjE)
    assume h: "o_versioning options = Some versioning" "vg_enabled versioning"
      "c_version controller = None \<or> c_version controller = Some []"
      "vg_fallback versioning = Some fallback" "fallback \<noteq> []"
    from h have e: "versioningEnabled options" by (simp add: versioningEnabled_def)
    from h(3) have v: "\<not> truthyOpt (c_version controller)"
      by (auto simp: truthyOpt_def truthy_def)
    from h have f: "truthyOpt (versioningFallback options)"
      "orElse (versioningFallback options) [] = fallback"
      by (simp_all add: versioningFallback_def truthyOpt_def truthy_def orElse_def)
    show "combinedPath options controller route = combinePaths [fallback, c_path controller, r_path route]"
      by (simp add: combinedPath_def e v f)
  qed
  have g: "orElse (o_globalPrefix options) [] = (case o_globalPrefix options of None \<Rightarrow> [] | Some prefix \<Rightarrow> prefix)"
    by (simp add: orElse_def truthy_def split: option.splits)
  have c: "o_versioning options = None
        \<or> (o_versioning options = Some versioning \<and> \<not> vg_enabled versioning)
        \<or> (o_versioning options = Some versioning
            \<and> (c_version controller = None \<or> c_version controller = Some [])
            \<and> (vg_fallback versioning = None \<or> vg_fallback versioning = Some [])) \<longrightarrow>
      combinedPath options controller route =
        combinePaths [(case o_globalPrefix options of None \<Rightarrow> [] | Some prefix \<Rightarrow> prefix),
                      c_path controller, r_path route]"
  proof
    assume "o_versioning options = None
        \<or> (o_versioning options = Some versioning \<and> \<not> vg_enabled versioning)
        \<or> (o_versioning options = Some versioning
            \<and> (c_version controller = None \<or> c_version controller = Some [])
            \<and> (vg_fallback versioning = None \<or> vg_fallback versioning = Some []))"
    then have "\<not> versioningEnabled options
        \<or> (\<not> truthyOpt (c_version controller) \<and> \<not> truthyOpt (versioningFallback options))"
      by (auto simp: versioningEnabled_def versioningFallback_def truthyOpt_def truthy_def)
    then show "combinedPath options controller route =
        combinePaths [(case o_globalPrefix options of None \<Rightarrow> [] | Some prefix \<Rightarrow> prefix),
                      c_path controller, r_path route]"
      unfolding combinedPath_def g by auto
  qed
  have d: "fst ` set (fst (generatePaths controllers options added))
       \<subseteq> (\<Union>c \<in> set controllers. fullPath options c ` set (c_routes c))"
    by (rule keys_generatePaths_subset)
  have e: "controller \<in> set controllers \<and> route \<in> set (c_routes controller)
        \<and> fullPath options controller route \<notin> set objectPrototypeMembers
        \<and> fullPath options controller route \<notin> set added
        \<and> fullPath options controller route \<notin> set methodFields \<longrightarrow>
      fullPath options controller route \<in> fst ` set (fst (generatePaths controllers options added))"
    using keys_generatePaths_member [of controller controllers route added options]
    by (simp add: inherits_def)
  from a b c d e show ?thesis by (simp add: fullPath_def)
qed

theorem path_by_versioning_policy_witness:
  "combinedPath legacyOptions adminController getProfile = ''api/v1/admin/profile''
   \<and> combinedPath customPrefixOptions adminController getProfile = ''rest/api/v1/admin/profile''
   \<and> combinedPath defaultPrefixOptions adminController getProfile = ''api/v1/admin/profile''
   \<and> combinedPath legacyOptions (adminController\<lparr>c_version := None\<rparr>) getProfile = ''legacy/admin/profile''
   \<and> combinedPath disabledOptions adminController getProfile = ''global/admin/profile''
   \<and> combinedPath prefixOptions adminController getProfile = ''api/v1/admin/profile''
   \<and> combinedPath customPrefixOptions (adminController\<lparr>c_version := None\<rparr>) getProfile = ''admin/profile''
   \<and> ''rest/api/v1/admin/profile'' \<in> fst ` set (fst (generatePaths [adminController] customPrefixOptions []))
   \<and> map fst (fst (generatePaths [rootController] bareOptions [])) = [''post'']
   \<and> snd (generatePaths [rootController] bareOptions []) = [''get'']"
proof -
  let ?legacy = "\<lparr> vg_enabled = True, vg_prefix = Some ''/api'', vg_fallback = Some ''/legacy'' \<rparr>"
  let ?custom = "\<lparr> vg_enabled = True, vg_prefix = Some ''/rest/api'', vg_fallback = None \<rparr>"
  let ?default = "\<lparr> vg_enabled = True, vg_prefix = None, vg_fallback = None \<rparr>"
  let ?disabled = "\<lparr> vg_enabled = False, vg_prefix = Some ''/rest/api'', vg_fallback = Some ''/legacy'' \<rparr>"
  let ?unversioned = "adminController\<lparr>c_version := None\<rparr>"
  note defs = legacyOptions_def customPrefixOptions_def defaultPrefixOptions_def disabledOptions_def
    prefixOptions_def versionedOptions_def adminController_def getProfile_def
  note eval = combinePaths_def string_eval
  have 1: "combinedPath legacyOptions adminController getProfile = ''api/v1/admin/profile''"
    using path_by_versioning_policy [where options = legacyOptions and versioning = ?legacy
        and controller = adminController and version = "''v1''" and route = getProfile, THEN conjunct1]
    by (simp add: defs eval)
  have 2: "combinedPath customPrefixOptions adminController getProfile = ''rest/api/v1/admin/profile''"
    using path_by_versioning_policy [where options = customPrefixOptions and versioning = ?custom
        and controller = adminController and version = "''v1''" and route = getProfile, THEN conjunct1]
    by (simp add: defs eval)
  have 3: "combinedPath defaultPrefixOptions adminController getProfile = ''api/v1/admin/profile''"
    using path_by_versioning_policy [where options = defaultPrefixOptions and versioning = ?default
        and controller = adminController and version = "''v1''" and route = getProfile, THEN conjunct1]
    by (simp add: defs eval)
  have 4: "combinedPath legacyOptions ?unversioned getProfile = ''legacy/admin/profile''"
    using path_by_versioning_policy [where options = legacyOptions and versioning = ?legacy
        and controller = ?unversioned and fallback = "''/legacy''" and route = getProfile,
        THEN conjunct2, THEN conjunct1]
    by (simp add: defs eval)
  have 5: "combinedPath disabledOptions adminController getProfile = ''global/admin/profile''"
    using path_by_versioning_policy [where options = disabledOptions and versioning = ?disabled
        and controller = adminController and route = getProfile,
        THEN conjunct2, THEN conjunct2, THEN conjunct1]
    by (simp add: defs eval)
  have 6: "combinedPath prefixOptions adminController getProfile = ''api/v1/admin/profile''"
    using path_by_versioning_policy [where options = prefixOptions
        and controller = adminController and route = getProfile,
        THEN conjunct2, THEN conjunct2, THEN conjunct1]
    by (simp add: defs eval)
  have 7: "combinedPath customPrefixOptions ?unversioned getProfile = ''admin/profile''"
    using path_by_versioning_policy [where options = customPrefixOptions and versioning = ?custom
        and controller = ?unversioned and route = getProfile,
        THEN conjunct2, THEN conjunct2, THEN conjunct1]
    by (simp add: defs eval)
  have f: "fullPath customPrefixOptions adminController getProfile = ''rest/api/v1/admin/profile''"
    by (simp add: fullPath_def 2)
  have 8: "''rest/api/v1/admin/profile'' \<in> fst ` set (fst (generatePaths [adminController] customPrefixOptions []))"
    using path_by_versioning_policy [where options = customPrefixOptions
        and controller = adminController and route = getProfile and controllers = "[adminController]"
        and added = "[]", THEN conjunct2, THEN conjunct2, THEN conjunct2, THEN conjunct2, THEN conjunct2]
    unfolding f
    by (simp add: adminController_def objectPrototypeMembers_def methodFields_def)
  have k: "fullPath bareOptions rootController (getProfile\<lparr>r_name := ''first'', r_path := ''__proto__''\<rparr>) = ''__proto__''"
      "fullPath bareOptions rootController (getProfile\<lparr>r_name := ''second'', r_path := ''get'', r_httpMethod := POST\<rparr>) = ''get''"
      "fullPath bareOptions rootController (getProfile\<lparr>r_name := ''third'', r_path := ''post''\<rparr>) = ''post''"
    by (simp_all add: bareOptions_def versionedOptions_def rootController_def getProfile_def path_eval eval)
  have r: "c_routes rootController = [getProfile\<lparr>r_name := ''first'', r_path := ''__proto__''\<rparr>,
                 getProfile\<lparr>r_name := ''second'', r_path := ''get'', r_httpMethod := POST\<rparr>,
                 getProfile\<lparr>r_name := ''third'', r_path := ''post''\<rparr>]"
    by (simp add: rootController_def)
  have m: "r_httpMethod (getProfile\<lparr>r_name := ''first'', r_path := ''__proto__''\<rparr>) = GET"
    by (simp add: getProfile_def)
  have 9: "map fst (fst (generatePaths [rootController] bareOptions [])) = [''post'']
           \<and> snd (generatePaths [rootController] bareOptions []) = [''get'']"
    by (simp add: generatePaths_def r addRoute_def k m Let_def inherits_def objectPrototypeMembers_def
          setProperty_first)
  from 1 2 3 4 5 6 7 8 9 show ?thesis by simp
qed

subsection \<open>Placeholders\<close>

text \<open>
  C3. The key of every route is its combined path with the placeholders rewritten as the
  last step. Every placeholder token, a colon followed by a run of word characters that
  is not empty, is rewritten to that run in braces wherever it stands in the path, and
  what stands before and after it is rewritten in the same way, so all tokens are
  rewritten and their order is preserved; a colon that no word character follows, a
  separator and a text without a colon are kept as they are. No colon-prefixed token (a
  colon followed by a word character) is left in a rewritten path, hence in any key of the
  paths.
\<close>

theorem placeholders_rewritten:
  "fullPath options controller route = replaceColonParams (combinedPath options controller route)
   \<and> (w \<noteq> [] \<and> list_all isWordChar w \<and> (b = [] \<or> \<not> isWordChar (hd b)) \<longrightarrow>
        replaceColonParams (a @ '':'' @ w @ b)
        = replaceColonParams a @ ''{'' @ w @ ''}'' @ replaceColonParams b)
   \<and> (b = [] \<or> \<not> isWordChar (hd b) \<longrightarrow>
        replaceColonParams (a @ '':'' @ b) = replaceColonParams a @ '':'' @ replaceColonParams b)
   \<and> replaceColonParams (a @ ''/'' @ b) = replaceColonParams a @ ''/'' @ replaceColonParams b
   \<and> (w \<noteq> [] \<and> list_all isWordChar w \<longrightarrow> replaceColonParams ('':'' @ w) = ''{'' @ w @ ''}'')
   \<and> (CHR '':'' \<notin> set t \<longrightarrow> replaceColonParams t = t)
   \<and> \<not> hasColonToken (replaceColonParams s)
   \<and> (\<forall>key \<in> fst ` set (fst (generatePaths controllers options added)). \<not> hasColonToken key)"
proof -
  have 1: "w \<noteq> [] \<and> list_all isWordChar w \<and> (b = [] \<or> \<not> isWordChar (hd b)) \<longrightarrow>
        replaceColonParams (a @ '':'' @ w @ b)
        = replaceColonParams a @ ''{'' @ w @ ''}'' @ replaceColonParams b"
    using replace_placeholder [of w b a] by simp
  have 2: "b = [] \<or> \<not> isWordChar (hd b) \<longrightarrow>
        replaceColonParams (a @ '':'' @ b) = replaceColonParams a @ '':'' @ replaceColonParams b"
    using replace_lone_colon [of b a] by simp
  have 3: "replaceColonParams (a @ ''/'' @ b) = replaceColonParams a @ ''/'' @ replaceColonParams b"
    using replace_distrib_slash [of a b] by simp
  have 4: "w \<noteq> [] \<and> list_all isWordChar w \<longrightarrow> replaceColonParams ('':'' @ w) = ''{'' @ w @ ''}''"
    using replace_token [of w] by simp
  have 5: "CHR '':'' \<notin> set t \<longrightarrow> replaceColonParams t = t"
    using replace_no_colon [of t] by simp
  have 6: "\<forall>key \<in> fst ` set (fst (generatePaths controllers options added)). \<not> hasColonToken key"
    by (rule keys_no_token)
  from 1 2 3 4 5 6 show ?thesis
    using replace_no_token [of s] by (simp add: fullPath_def)
qed

theorem placeholders_rewritten_witness:
  "fullPath prefixOptions resourceController getResource = ''api/v1/admin/{userId}/resource/{resourceId}''
   \<and> combinedPath prefixOptions resourceController getResource = ''api/v1/admin/:userId/resource/:resourceId''
   \<and> map fst (fst (generatePaths [resourceController] prefixOptions [])) = [''api/v1/admin/{userId}/resource/{resourceId}'']
   \<and> \<not> hasColonToken ''api/v1/admin/{userId}/resource/{resourceId}''
   \<and> hasColonToken ''api/v1/admin/:userId/resource/:resourceId''
   \<and> replaceColonParams ''range/:from-:to'' = ''range/{from}-{to}''
   \<and> replaceColonParams ''files/:name.json'' = ''files/{name}.json''
   \<and> replaceColonParams ''at:/:id'' = ''at:/{id}''
   \<and> replaceColonParams '':userId'' = ''{userId}''
   \<and> replaceColonParams ''resource'' = ''resource''"
proof -
  have c: "combinedPath prefixOptions resourceController getResource = ''api/v1/admin/:userId/resource/:resourceId''"
    by (simp add: resourceController_def adminController_def getResource_def prefixOptions_def
          path_eval string_eval)
  have rp: "replaceColonParams ''api/v1/admin/:userId/resource/:resourceId''
            = ''api/v1/admin/{userId}/resource/{resourceId}''"
    by (simp add: isWordChar_def charCode_def)
  note t = placeholders_rewritten [where options = prefixOptions and controller = resourceController
      and route = getResource and s = "''api/v1/admin/:userId/resource/:resourceId''"
      and controllers = "[resourceController]" and added = "[]"]
  have f: "fullPath prefixOptions resourceController getResource = ''api/v1/admin/{userId}/resource/{resourceId}''"
    using t [THEN conjunct1] unfolding c rp .
  have "c_routes resourceController = [getResource]" by (simp add: resourceController_def)
  moreover have "\<not> inherits [] (fullPath prefixOptions resourceController getResource)"
    unfolding f by (simp add: inherits_def objectPrototypeMembers_def)
  ultimately have k: "map fst (fst (generatePaths [resourceController] prefixOptions []))
                      = [fullPath prefixOptions resourceController getResource]"
    by (simp add: generatePaths_single)
  have h1: "\<not> hasColonToken ''api/v1/admin/{userId}/resource/{resourceId}''"
    using t [THEN conjunct2, THEN conjunct2, THEN conjunct2, THEN conjunct2, THEN conjunct2,
        THEN conjunct2, THEN conjunct1] unfolding rp .
  have h2: "hasColonToken ''api/v1/admin/:userId/resource/:resourceId''"
    by (simp add: isWordChar_def charCode_def)
  have to: "replaceColonParams ''-:to'' = ''-{to}''"
    using placeholders_rewritten [where a = "''-''" and w = "''to''" and b = "[]" and t = "''-''",
        THEN conjunct2]
    by (simp add: isWordChar_def charCode_def)
  have range: "replaceColonParams ''range/:from-:to'' = ''range/{from}-{to}''"
    using placeholders_rewritten [where a = "''range/''" and w = "''from''" and b = "''-:to''"
        and t = "''range/''", THEN conjunct2] to
    by (simp add: isWordChar_def charCode_def)
  have files: "replaceColonParams ''files/:name.json'' = ''files/{name}.json''"
    using placeholders_rewritten [where a = "''files/''" and w = "''name''" and b = "''.json''"
        and t = "''files/''", THEN conjunct2]
      placeholders_rewritten [where t = "''.json''", THEN conjunct2]
    by (simp add: isWordChar_def charCode_def)
  have lone: "replaceColonParams ''at:/:id'' = ''at:/{id}''"
    using placeholders_rewritten [where a = "''at''" and b = "''/:id''" and t = "''at''"
        and w = "''id''", THEN conjunct2]
      placeholders_rewritten [where a = "''/''" and b = "[]" and t = "''/''"
        and w = "''id''", THEN conjunct2]
    by (simp add: isWordChar_def charCode_def)
  have r1: "replaceColonParams '':userId'' = ''{userId}''"
    using placeholders_rewritten [where w = "''userId''", THEN conjunct2]
    by (simp add: isWordChar_def charCode_def)
  have r2: "replaceColonParams ''resource'' = ''resource''"
    using placeholders_rewritten [where t = "''resource''", THEN conjunct2] by simp
  show ?thesis unfolding c f k using h1 h2 range files lone r1 r2 by simp
qed

subsection \<open>Path combination\<close>

text \<open>
  C4, as amended. For the combinePaths of the generator and all segments: combining the
  segments with their leading and trailing separators stripped gives the same path as
  combining the segments themselves; the result is the segments that are non-empty after
  stripping, joined with exactly one separator (for two such segments: the first stripped,
  one separator, the second stripped, with no separator left at the joint); and a
  combination whose every segment is empty, or only separators, is the empty string, not
  the root path. For the combinePaths of the route scanner and all base and route paths:
  two empty paths give the root path; the result begins with a separator and holds no two
  adjacent separators behind its first character. For a base path and a route path
  without white space at their ends, neither empty nor a lone separator, the result is the
  separator followed by base, separator and route path with every run of separators
  reduced to one, so the separators at the joint are normalised: a base path with
  separators added at its end and a route path with separators added at its start combine
  as the two paths themselves do (\<open>admin/\<close>, \<open>/profile\<close> as \<open>admin\<close>, \<open>profile\<close>). When
  the base path does not end and the route path does not begin with a separator, exactly
  one separator stands between them.
\<close>

theorem combinePaths_normalizes:
  "combinePaths (map stripSlashes segments) = combinePaths segments
   \<and> combinePaths segments = join ''/'' (filter truthy (map stripSlashes segments))
   \<and> (stripSlashes a \<noteq> [] \<and> stripSlashes b \<noteq> [] \<longrightarrow>
        combinePaths [a, b] = stripSlashes a @ ''/'' @ stripSlashes b
        \<and> \<not> isSlash (last (stripSlashes a)) \<and> \<not> isSlash (hd (stripSlashes b)))
   \<and> ((\<forall>s \<in> set segments. stripSlashes s = []) \<longrightarrow> combinePaths segments = [])
   \<and> combinePaths_RouteScanner [] [] = ''/''
   \<and> combinePaths_RouteScanner ''admin/'' ''/profile'' = combinePaths_RouteScanner ''admin'' ''profile''
   \<and> combinePaths_RouteScanner base path \<noteq> []
   \<and> hd (combinePaths_RouteScanner base path) = CHR ''/''
   \<and> \<not> hasDoubleSlash (tl (combinePaths_RouteScanner base path))
   \<and> (trim base = base \<and> trim path = path \<and> base \<noteq> [] \<and> base \<noteq> ''/''
        \<and> path \<noteq> [] \<and> path \<noteq> ''/'' \<longrightarrow>
        combinePaths_RouteScanner base path = ''/'' @ collapseSlashes (base @ ''/'' @ path)
        \<and> combinePaths_RouteScanner (base @ replicate i CHR ''/'') (replicate j CHR ''/'' @ path)
            = combinePaths_RouteScanner base path)
   \<and> (trim base = base \<and> trim path = path \<and> base \<noteq> [] \<and> \<not> isSlash (last base)
        \<and> path \<noteq> [] \<and> \<not> isSlash (hd path) \<longrightarrow>
        combinePaths_RouteScanner base path
        = ''/'' @ collapseSlashes base @ ''/'' @ collapseSlashes path)"
proof -
  have 1: "stripSlashes a \<noteq> [] \<and> stripSlashes b \<noteq> [] \<longrightarrow>
        combinePaths [a, b] = stripSlashes a @ ''/'' @ stripSlashes b
        \<and> \<not> isSlash (last (stripSlashes a)) \<and> \<not> isSlash (hd (stripSlashes b))"
    using stripSlashes_no_lead [of b] stripSlashes_no_trail [of a] combinePaths_two [of a b] by auto
  have 2: "(\<forall>s \<in> set segments. stripSlashes s = []) \<longrightarrow> combinePaths segments = []"
    using combinePaths_all_empty [of segments] by blast
  have 3: "combinePaths_RouteScanner [] [] = ''/''"
    by (simp add: combinePaths_RouteScanner_def truthy_def)
  have 4: "trim base = base \<and> trim path = path \<and> base \<noteq> [] \<and> base \<noteq> ''/''
        \<and> path \<noteq> [] \<and> path \<noteq> ''/'' \<longrightarrow>
        combinePaths_RouteScanner base path = ''/'' @ collapseSlashes (base @ ''/'' @ path)
        \<and> combinePaths_RouteScanner (base @ replicate i CHR ''/'') (replicate j CHR ''/'' @ path)
            = combinePaths_RouteScanner base path"
    using rs_both [of base path] rs_joint [of base path i j] by blast
  have 5: "trim base = base \<and> trim path = path \<and> base \<noteq> [] \<and> \<not> isSlash (last base)
        \<and> path \<noteq> [] \<and> \<not> isSlash (hd path) \<longrightarrow>
        combinePaths_RouteScanner base path
        = ''/'' @ collapseSlashes base @ ''/'' @ collapseSlashes path"
    using rs_between [of base path] by blast
  have 6: "combinePaths_RouteScanner ''admin/'' ''/profile'' = combinePaths_RouteScanner ''admin'' ''profile''"
    by (simp add: rs_example1 rs_example2)
  from 1 2 3 4 5 6 show ?thesis
    using combinePaths_stripped [of segments] combinePaths_join [of segments]
      rs_leading [of base path] rs_no_double [of base path]
    by blast
qed

theorem combinePaths_normalizes_witness:
  "combinePaths [''admin/'', ''/profile''] = combinePaths [''admin'', ''profile'']
   \<and> combinePaths [''admin/'', ''/profile''] = ''admin/profile''
   \<and> stripSlashes ''admin/'' = ''admin'' \<and> stripSlashes ''/profile'' = ''profile''
   \<and> stripSlashes [] = [] \<and> stripSlashes ''/'' = []
   \<and> combinePaths [[], ''/''] = []
   \<and> combinePaths_RouteScanner ''admin'' ''profile'' = ''/admin/profile''
   \<and> combinePaths_RouteScanner ''admin//'' ''/profile'' = ''/admin/profile''
   \<and> combinePaths_RouteScanner ''api/admin'' '':id/items'' = ''/api/admin/:id/items''"
proof -
  have s: "stripSlashes ''admin/'' = ''admin''" "stripSlashes ''/profile'' = ''profile''"
     "stripSlashes [] = []" "stripSlashes ''/'' = []"
    by (simp_all add: stripSlashes_def isSlash_def)
  have tr: "trim ''admin'' = ''admin''" "trim ''profile'' = ''profile''"
     "trim ''api/admin'' = ''api/admin''" "trim '':id/items'' = '':id/items''"
    by (simp_all add: trim_def isSpace_def charCode_def)
  have cl: "collapseSlashes ''admin/profile'' = ''admin/profile''"
     "collapseSlashes ''api/admin'' = ''api/admin''" "collapseSlashes '':id/items'' = '':id/items''"
    by (simp_all add: isSlash_def)
  note t1 = combinePaths_normalizes [where segments = "[''admin/'', ''/profile'']"
      and a = "''admin/''" and b = "''/profile''" and base = "''admin''" and path = "''profile''"
      and i = "Suc (Suc 0)" and j = "Suc 0"]
  note t2 = combinePaths_normalizes [where segments = "[[], ''/'']" and base = "''api/admin''"
      and path = "'':id/items''"]
  have a: "combinePaths [''admin/'', ''/profile''] = combinePaths [''admin'', ''profile'']"
    using t1 [THEN conjunct1] by (simp add: s)
  have "combinePaths [''admin/'', ''/profile''] = stripSlashes ''admin/'' @ ''/'' @ stripSlashes ''/profile''"
    using t1 [THEN conjunct2, THEN conjunct2, THEN conjunct1] by (simp add: s)
  then have b: "combinePaths [''admin/'', ''/profile''] = ''admin/profile''"
    by (simp add: s)
  have c: "combinePaths [[], ''/''] = []"
    using t2 [THEN conjunct2, THEN conjunct2, THEN conjunct2, THEN conjunct1] by (simp add: s)
  have h1: "trim ''admin'' = ''admin'' \<and> trim ''profile'' = ''profile'' \<and> ''admin'' \<noteq> []
            \<and> ''admin'' \<noteq> ''/'' \<and> ''profile'' \<noteq> [] \<and> ''profile'' \<noteq> ''/''"
    by (simp add: tr)
  note j = t1 [THEN conjunct2, THEN conjunct2, THEN conjunct2, THEN conjunct2, THEN conjunct2,
      THEN conjunct2, THEN conjunct2, THEN conjunct2, THEN conjunct2, THEN conjunct1, THEN mp, OF h1]
  from j [THEN conjunct1] have d: "combinePaths_RouteScanner ''admin'' ''profile'' = ''/admin/profile''"
    by (simp add: isSlash_def)
  from j [THEN conjunct2] have e: "combinePaths_RouteScanner ''admin//'' ''/profile'' = ''/admin/profile''"
    by (simp add: d)
  have h2: "trim ''api/admin'' = ''api/admin'' \<and> trim '':id/items'' = '':id/items'' \<and> ''api/admin'' \<noteq> []
            \<and> \<not> isSlash (last ''api/admin'') \<and> '':id/items'' \<noteq> [] \<and> \<not> isSlash (hd '':id/items'')"
    by (simp add: tr isSlash_def)
  note g = t2 [THEN conjunct2, THEN conjunct2, THEN conjunct2, THEN conjunct2, THEN conjunct2,
      THEN conjunct2, THEN conjunct2, THEN conjunct2, THEN conjunct2, THEN conjunct2, THEN mp, OF h2]
  from g have f: "combinePaths_RouteScanner ''api/admin'' '':id/items'' = ''/api/admin/:id/items''"
    by (simp add: isSlash_def)
  show ?thesis using a b c d e f s by simp
qed

text \<open>
  C4 as stated fails: the generator combines two empty segments to the empty string, not to
  the root path, and the route scanner keeps a trailing separator of its second segment.
\<close>

theorem combinePaths_root_counterexample:
  "combinePaths [[], []] = [] \<and> combinePaths [[], []] \<noteq> ''/''
   \<and> combinePaths_RouteScanner ''admin'' ''profile/'' \<noteq> combinePaths_RouteScanner ''admin'' ''profile''"
  by (simp add: gen_empty rs_example3 rs_example2)

subsection \<open>Category mapping\<close>

text \<open>
  C5, as amended. For every category and mapping, findMappedCategory returns the value of
  the exact key when the mapping has that key with a value that is not empty. When the
  mapping has no such key and the category is the name of a member that the mapping
  inherits from \<open>Object.prototype\<close>, it returns that member, which is not a string. In
  every other case it returns the value of the first entry, in the order of the mapping,
  whose normalised key is a prefix of (or equal to) the normalised category: the normalised
  equality and the normalised prefix are tested entry by entry, not in two passes. It
  agrees with the three-pass lookup of the specification on an exact key with a non-empty
  value, and for a category that is not the name of an inherited member no rule of the
  specification matches exactly when findMappedCategory finds nothing.
  applyCategoryMapping leaves the controllers as they are without a mapping, and with one
  replaces the category of each controller by what findMappedCategory returns for it, a
  string that is not empty or an inherited member, keeping the category otherwise; no
  other field of a controller changes.
\<close>

theorem category_lookup_order:
  "findMappedCategory added category mapping =
     (case map_of mapping category of
        Some v \<Rightarrow>
          if v \<noteq> [] then Some (Text v)
          else map_option (\<lambda>(key, v). Text v)
                 (find (\<lambda>(key, v). startsWith (normalizeCategory category) (normalizeCategory key)) mapping)
      | None \<Rightarrow>
          if category \<in> set objectPrototypeMembers \<or> category \<in> set added then Some (Member category)
          else map_option (\<lambda>(key, v). Text v)
                 (find (\<lambda>(key, v). startsWith (normalizeCategory category) (normalizeCategory key)) mapping))
   \<and> (map_of mapping category = Some v \<and> v \<noteq> [] \<longrightarrow>
         findMappedCategory added category mapping = Some (Text v)
         \<and> spec_findMappedCategory category mapping = Some v)
   \<and> (category \<notin> set objectPrototypeMembers \<and> category \<notin> set added \<longrightarrow>
         (spec_findMappedCategory category mapping = None
          \<longleftrightarrow> findMappedCategory added category mapping = None))
   \<and> applyCategoryMapping added controllers None =
       map (\<lambda>controller.
              \<lparr> c_name = c_name controller, c_path = c_path controller,
                  c_category = Text (c_category controller),
                  c_version = c_version controller, c_description = c_description controller,
                  c_routes = c_routes controller \<rparr>) controllers
   \<and> applyCategoryMapping added controllers (Some mapping) =
       map (\<lambda>controller.
              \<lparr> c_name = c_name controller, c_path = c_path controller,
                  c_category =
                    (case findMappedCategory added (c_category controller) mapping of
                       None \<Rightarrow> Text (c_category controller)
                     | Some (Text v) \<Rightarrow> if v \<noteq> [] then Text v else Text (c_category controller)
                     | Some (Member k) \<Rightarrow> Member k),
                  c_version = c_version controller, c_description = c_description controller,
                  c_routes = c_routes controller \<rparr>) controllers"
proof -
  have a: "map_of mapping category = Some v \<and> v \<noteq> [] \<longrightarrow>
         findMappedCategory added category mapping = Some (Text v)
         \<and> spec_findMappedCategory category mapping = Some v"
    by (simp add: findMappedCategory_cases spec_findMappedCategory_def)
  have b: "category \<notin> set objectPrototypeMembers \<and> category \<notin> set added \<longrightarrow>
         (spec_findMappedCategory category mapping = None
          \<longleftrightarrow> findMappedCategory added category mapping = None)"
    using spec_none_iff [of added category mapping] by (simp add: inherits_def)
  have c: "applyCategoryMapping added controllers None =
       map (\<lambda>controller.
              \<lparr> c_name = c_name controller, c_path = c_path controller,
                  c_category = Text (c_category controller),
                  c_version = c_version controller, c_description = c_description controller,
                  c_routes = c_routes controller \<rparr>) controllers"
    by (simp add: applyCategoryMapping_def unmapped_def withCategory_def)
  have d: "applyCategoryMapping added controllers (Some mapping) =
       map (\<lambda>controller.
              \<lparr> c_name = c_name controller, c_path = c_path controller,
                  c_category =
                    (case findMappedCategory added (c_category controller) mapping of
                       None \<Rightarrow> Text (c_category controller)
                     | Some (Text v) \<Rightarrow> if v \<noteq> [] then Text v else Text (c_category controller)
                     | Some (Member k) \<Rightarrow> Member k),
                  c_version = c_version controller, c_description = c_description controller,
                  c_routes = c_routes controller \<rparr>) controllers"
    by (simp add: applyCategoryMapping_def withCategory_def orCategory_cases)
  from a b c d show ?thesis
    using findMappedCategory_cases [of added category mapping] by blast
qed

theorem category_lookup_order_witness:
  "findMappedCategory [] ''Admin - Auth'' overlappingMapping = Some (Text ''Administration'')
   \<and> findMappedCategory [] ''admin'' overlappingMapping = Some (Text ''Administration'')
   \<and> spec_findMappedCategory ''admin'' overlappingMapping = Some ''Administration''
   \<and> findMappedCategory [] ''Admin'' [(''user'', ''Users'')] = None
   \<and> spec_findMappedCategory ''Admin'' [(''user'', ''Users'')] = None
   \<and> findMappedCategory [] ''constructor'' overlappingMapping = Some (Member ''constructor'')
   \<and> findMappedCategory [] ''constructor'' [(''constructor'', ''Builders'')] = Some (Text ''Builders'')
   \<and> map c_category (applyCategoryMapping [] [authController, adminController, objectController]
                        (Some overlappingMapping))
       = [Text ''Administration'', Text ''Administration'', Member ''constructor'']
   \<and> map c_category (applyCategoryMapping [] [authController, adminController] (Some [(''user'', ''Users'')]))
       = [Text ''Admin - Auth'', Text ''Admin'']
   \<and> map c_name (applyCategoryMapping [] [authController, adminController] (Some overlappingMapping))
       = [''AuthController'', ''AdminController'']"
proof -
  let ?three = "[authController, adminController, objectController]"
  let ?two = "[authController, adminController]"
  note members = objectPrototypeMembers_def
  note t1 = category_lookup_order [where added = "[]" and category = "''Admin - Auth''"
      and mapping = overlappingMapping and controllers = ?three]
  note t2 = category_lookup_order [where added = "[]" and category = "''admin''"
      and mapping = overlappingMapping and v = "''Administration''" and controllers = ?two]
  note t3 = category_lookup_order [where added = "[]" and category = "''Admin''"
      and mapping = "[(''user'', ''Users'')]" and controllers = ?two]
  note t4 = category_lookup_order [where added = "[]" and category = "''constructor''"
      and mapping = overlappingMapping]
  note t5 = category_lookup_order [where added = "[]" and category = "''constructor''"
      and mapping = "[(''constructor'', ''Builders'')]"]
  have a: "findMappedCategory [] ''Admin - Auth'' overlappingMapping = Some (Text ''Administration'')"
    using t1 [THEN conjunct1]
    by (simp add: overlappingMapping_def members norm_examples startsWith_def)
  have b: "findMappedCategory [] ''admin'' overlappingMapping = Some (Text ''Administration'')
           \<and> spec_findMappedCategory ''admin'' overlappingMapping = Some ''Administration''"
    using t2 [THEN conjunct2, THEN conjunct1] by (simp add: overlappingMapping_def)
  have a2: "findMappedCategory [] ''Admin'' overlappingMapping = Some (Text ''Administration'')"
    using category_lookup_order [where added = "[]" and category = "''Admin''"
        and mapping = overlappingMapping, THEN conjunct1]
    by (simp add: overlappingMapping_def members norm_examples startsWith_def)
  have e1: "findMappedCategory [] ''Admin'' [(''user'', ''Users'')] = None"
    using t3 [THEN conjunct1] by (simp add: members norm_examples startsWith_def)
  have e2: "findMappedCategory [] ''Admin - Auth'' [(''user'', ''Users'')] = None"
    using category_lookup_order [where added = "[]" and category = "''Admin - Auth''"
        and mapping = "[(''user'', ''Users'')]", THEN conjunct1]
    by (simp add: members norm_examples startsWith_def)
  have e3: "spec_findMappedCategory ''Admin'' [(''user'', ''Users'')] = None"
    using t3 [THEN conjunct2, THEN conjunct2, THEN conjunct1] e1 by (simp add: members)
  have c1: "findMappedCategory [] ''constructor'' overlappingMapping = Some (Member ''constructor'')"
    using t4 [THEN conjunct1] by (simp add: overlappingMapping_def members)
  have c2: "findMappedCategory [] ''constructor'' [(''constructor'', ''Builders'')] = Some (Text ''Builders'')"
    using t5 [THEN conjunct1] by simp
  have d: "map c_category (applyCategoryMapping [] ?three (Some overlappingMapping))
       = [Text ''Administration'', Text ''Administration'', Member ''constructor'']"
    using t1 [THEN conjunct2, THEN conjunct2, THEN conjunct2, THEN conjunct2]
    by (simp add: authController_def adminController_def objectController_def a a2 c1)
  have e: "map c_category (applyCategoryMapping [] ?two (Some [(''user'', ''Users'')]))
       = [Text ''Admin - Auth'', Text ''Admin'']"
    using t3 [THEN conjunct2, THEN conjunct2, THEN conjunct2, THEN conjunct2]
    by (simp add: authController_def adminController_def e1 e2)
  have f: "map c_name (applyCategoryMapping [] ?two (Some overlappingMapping))
       = [''AuthController'', ''AdminController'']"
    using t2 [THEN conjunct2, THEN conjunct2, THEN conjunct2, THEN conjunct2]
    by (simp add: authController_def adminController_def)
  from a b e1 e3 c1 c2 d e f show ?thesis by simp
qed

text \<open>
  C5 as stated fails. For the category \<open>Admin Auth\<close> and the keys \<open>admin\<close>,
  \<open>admin auth\<close> in this order, the second key equals the category after normalisation,
  but the first key, a normalised prefix, is met first and wins. For the category
  \<open>constructor\<close> no rule of the specification matches, and the category is not kept: it
  is replaced by the member \<open>constructor\<close> that the mapping inherits.
\<close>

theorem category_lookup_order_counterexample:
  "findMappedCategory [] ''Admin Auth'' overlappingMapping = Some (Text ''Administration'')
   \<and> spec_findMappedCategory ''Admin Auth'' overlappingMapping = Some ''Admin Authentication''
   \<and> spec_findMappedCategory ''constructor'' overlappingMapping = None
   \<and> map c_category (applyCategoryMapping [] [objectController] (Some overlappingMapping))
       = [Member ''constructor'']"
proof -
  have a: "findMappedCategory [] ''Admin Auth'' overlappingMapping = Some (Text ''Administration'')"
    by (simp add: findMappedCategory_cases overlappingMapping_def objectPrototypeMembers_def
          norm_examples startsWith_def)
  have b: "spec_findMappedCategory ''Admin Auth'' overlappingMapping = Some ''Admin Authentication''"
    by (simp add: spec_findMappedCategory_def overlappingMapping_def norm_examples startsWith_def)
  have c: "spec_findMappedCategory ''constructor'' overlappingMapping = None"
    by (simp add: spec_findMappedCategory_def overlappingMapping_def norm_examples startsWith_def)
  have "findMappedCategory [] ''constructor'' overlappingMapping = Some (Member ''constructor'')"
    by (simp add: findMappedCategory_cases overlappingMapping_def objectPrototypeMembers_def)
  then have d: "map c_category (applyCategoryMapping [] [objectController] (Some overlappingMapping))
       = [Member ''constructor'']"
    by (simp add: applyCategoryMapping_def withCategory_def orCategory_cases objectController_def
          adminController_def)
  from a b c d show ?thesis by simp
qed

subsection \<open>Required properties\<close>

text \<open>
  C6, as amended. For an object type that convertTypeToSchema converts (not a primitive,
  an array with an element type or an enumeration with values, and with properties), the
  names listed as required are those of the properties whose validators hold a
  non-emptiness or required constraint and no optionality constraint, in order; with
  distinct property names, a property is listed if and only if that holds, so explicit
  optionality wins. For the object schema that convertDtoToSchema builds for a request or
  response body, the names listed are those of the properties whose \<open>required\<close> flag is
  set, whatever the validators are.
\<close>

theorem required_properties:
  "(\<not> t_isPrimitive tm \<and> \<not> (t_isArray tm \<and> t_elementType tm \<noteq> None)
      \<and> \<not> (t_isEnum tm \<and> t_enumValues tm \<noteq> None) \<and> t_properties tm = Some props \<longrightarrow>
      listedRequired (convertTypeToSchema (Some tm))
        = map p_name (filter (\<lambda>p. isRequired p \<and> \<not> isOptional p) props)
      \<and> (distinct (map p_name props) \<longrightarrow>
           (\<forall>p \<in> set props. p_name p \<in> set (listedRequired (convertTypeToSchema (Some tm)))
                                \<longleftrightarrow> isRequired p \<and> \<not> isOptional p)))
   \<and> listedRequired (convertDtoToSchema dto) = map p_name (filter p_required (d_properties dto))
   \<and> (distinct (map p_name (d_properties dto)) \<longrightarrow>
        (\<forall>p \<in> set (d_properties dto). p_name p \<in> set (listedRequired (convertDtoToSchema dto))
                                         \<longleftrightarrow> p_required p))
   \<and> (r_requestBody route = Some dto \<and> r_httpMethod route \<in> {POST, PUT, PATCH} \<longrightarrow>
        op_requestBody (createOperation route controller)
        = Some \<lparr> rb_required = True, rb_content = [(''application/json'', convertDtoToSchema dto)] \<rparr>)"
proof -
  have a: "\<not> t_isPrimitive tm \<and> \<not> (t_isArray tm \<and> t_elementType tm \<noteq> None)
      \<and> \<not> (t_isEnum tm \<and> t_enumValues tm \<noteq> None) \<and> t_properties tm = Some props \<longrightarrow>
      listedRequired (convertTypeToSchema (Some tm))
        = map p_name (filter (\<lambda>p. isRequired p \<and> \<not> isOptional p) props)
      \<and> (distinct (map p_name props) \<longrightarrow>
           (\<forall>p \<in> set props. p_name p \<in> set (listedRequired (convertTypeToSchema (Some tm)))
                                \<longleftrightarrow> isRequired p \<and> \<not> isOptional p))"
  proof (intro impI conjI ballI)
    assume h: "\<not> t_isPrimitive tm \<and> \<not> (t_isArray tm \<and> t_elementType tm \<noteq> None)
      \<and> \<not> (t_isEnum tm \<and> t_enumValues tm \<noteq> None) \<and> t_properties tm = Some props"
    then show l: "listedRequired (convertTypeToSchema (Some tm))
        = map p_name (filter (\<lambda>p. isRequired p \<and> \<not> isOptional p) props)"
      using listed_object_type [of tm props] by blast
    fix p assume d: "distinct (map p_name props)" and p: "p \<in> set props"
    show "p_name p \<in> set (listedRequired (convertTypeToSchema (Some tm)))
                                \<longleftrightarrow> isRequired p \<and> \<not> isOptional p"
      unfolding l by (rule name_in_filtered [OF d p])
  qed
  have b: "distinct (map p_name (d_properties dto)) \<longrightarrow>
        (\<forall>p \<in> set (d_properties dto). p_name p \<in> set (listedRequired (convertDtoToSchema dto))
                                         \<longleftrightarrow> p_required p)"
    unfolding listed_dto using name_in_filtered [of "d_properties dto" _ p_required] by blast
  show ?thesis using a b listed_dto [of dto] requestBody_schema [of route dto controller] by blast
qed

theorem required_properties_witness:
  "listedRequired (convertTypeToSchema (Some profileType)) = [''title'']
   \<and> isRequired bothProperty \<and> isOptional bothProperty
   \<and> ''both'' \<notin> set (listedRequired (convertTypeToSchema (Some profileType)))
   \<and> listedRequired (convertDtoToSchema profileDto) = [''nickname'']"
proof -
  note t = required_properties [of profileType "[nicknameProperty, titleProperty, bothProperty]" profileDto
      getProfile adminController]
  have n: "p_name nicknameProperty = ''nickname''" "p_name titleProperty = ''title''"
      "p_name bothProperty = ''both''"
    by (simp_all add: nicknameProperty_def titleProperty_def bothProperty_def)
  have "listedRequired (convertTypeToSchema (Some profileType))
        = map p_name (filter (\<lambda>p. isRequired p \<and> \<not> isOptional p) [nicknameProperty, titleProperty, bothProperty])"
    using t [THEN conjunct1] by (simp add: profileType_def)
  then have a: "listedRequired (convertTypeToSchema (Some profileType)) = [''title'']"
    by (simp add: example_flags n)
  have "listedRequired (convertDtoToSchema profileDto) = map p_name (filter p_required (d_properties profileDto))"
    using t [THEN conjunct2, THEN conjunct1] .
  then have b: "listedRequired (convertDtoToSchema profileDto) = [''nickname'']"
    by (simp add: profileDto_def example_flags n)
  show ?thesis using a b by (simp add: example_flags)
qed

text \<open>
  C6 as stated fails for the properties of a body: in the schema of the DTO, \<open>nickname\<close>
  carries an optionality constraint and is listed as required, and \<open>title\<close> carries a
  non-emptiness constraint and no optionality constraint and is not listed.
\<close>

theorem required_properties_counterexample:
  "isOptional nicknameProperty
   \<and> ''nickname'' \<in> set (listedRequired (convertDtoToSchema profileDto))
   \<and> isRequired titleProperty \<and> \<not> isOptional titleProperty
   \<and> ''title'' \<notin> set (listedRequired (convertDtoToSchema profileDto))"
proof -
  have n: "p_name nicknameProperty = ''nickname''" "p_name titleProperty = ''title''"
    by (simp_all add: nicknameProperty_def titleProperty_def)
  show ?thesis by (simp add: listed_dto profileDto_def example_flags n)
qed

subsection \<open>Path parameters\<close>

text \<open>
  C7. A parameter built from a \<open>@Param\<close> decorator has the path location and the required
  flag, whatever its question token and initializer say; every extracted parameter with
  the path location is required; and in the operation of every route each path parameter
  of the route is present and required, whatever its own required flag is.
\<close>

theorem path_parameters_required:
  "(buildParamMetadata param decorator decoratorName = Some pm \<longrightarrow>
      (pm_in pm = InPath \<longleftrightarrow> decoratorName = ''Param'') \<and> pm_required pm = (pm_in pm = InPath))
   \<and> (\<forall>pm \<in> set (extractParameters parameters). pm_in pm = InPath \<longrightarrow> pm_required pm)
   \<and> (\<forall>po \<in> set (parametersOf (createOperation route controller)). po_in po = InPath \<longrightarrow> po_required po)
   \<and> (\<forall>p \<in> set (routeParams route). pm_in p = InPath \<longrightarrow>
         parameterObject p \<in> set (parametersOf (createOperation route controller))
         \<and> po_in (parameterObject p) = InPath \<and> po_required (parameterObject p))"
proof -
  have a: "buildParamMetadata param decorator decoratorName = Some pm \<longrightarrow>
      (pm_in pm = InPath \<longleftrightarrow> decoratorName = ''Param'') \<and> pm_required pm = (pm_in pm = InPath)"
    using buildParamMetadata_required by blast
  have b: "\<forall>pm \<in> set (extractParameters parameters). pm_in pm = InPath \<longrightarrow> pm_required pm"
    using extractParameters_inv by blast
  have c: "\<forall>po \<in> set (parametersOf (createOperation route controller)). po_in po = InPath \<longrightarrow> po_required po"
    by (auto simp: parametersOf_createOperation parameterObject_def)
  have d: "\<forall>p \<in> set (routeParams route). pm_in p = InPath \<longrightarrow>
         parameterObject p \<in> set (parametersOf (createOperation route controller))
         \<and> po_in (parameterObject p) = InPath \<and> po_required (parameterObject p)"
    by (auto simp: parametersOf_createOperation parameterObject_def)
  show ?thesis using a b c d by blast
qed

theorem path_parameters_required_witness:
  "pd_hasQuestionToken idParameter
   \<and> map pm_in (extractParameters [idParameter, traceParameter]) = [InPath, InHeader]
   \<and> map pm_required (extractParameters [idParameter, traceParameter]) = [True, False]
   \<and> map po_in (parametersOf (createOperation getById adminController)) = [InPath]
   \<and> map po_required (parametersOf (createOperation getById adminController)) = [True]"
proof -
  note t = path_parameters_required [of idParameter "hd (pd_decorators idParameter)" "''Param''"
      "hd (extractParameters [idParameter, traceParameter])" "[idParameter, traceParameter]"
      getById adminController]
  have rp: "routeParams getById = extractParameters [idParameter, traceParameter]"
    by (simp add: routeParams_def getById_def)
  have q: "pd_hasQuestionToken idParameter" by (simp add: idParameter_def)
  have "\<forall>po \<in> set (parametersOf (createOperation getById adminController)).
          po_in po = InPath \<longrightarrow> po_required po"
    using t by blast
  moreover have "map po_in (parametersOf (createOperation getById adminController)) = [InPath]"
    unfolding parametersOf_createOperation rp extract_id_trace by (simp add: parameterObject_def)
  ultimately have "map po_required (parametersOf (createOperation getById adminController)) = [True]"
    by (cases "parametersOf (createOperation getById adminController)") auto
  moreover note \<open>map po_in (parametersOf (createOperation getById adminController)) = [InPath]\<close>
  ultimately show ?thesis unfolding extract_id_trace using q by simp
qed

subsection \<open>Requesting the specification\<close>

text \<open>
  C8, as amended. getOpenApiSpec raises an error (always the same one) if and only if the
  service holds no specification; when a specification is stored it is returned, and the
  state of the service is never changed by the request. A scan whose controller scan fails
  throws that failure again to its caller, as does initialize, and leaves the state as it
  was: the missing specification is not the only failure that reaches a caller. A scan
  whose controller scan succeeds stays in the model exactly when the category mapping, if
  one is configured, replaces no category by an inherited member; it then succeeds and
  stores the specification generated from the controllers with their mapped categories,
  which the next request returns. From the initial state, after scans that all stay in
  the model, the service holds no specification exactly when every controller scan has
  failed, that is when no scan has completed.
\<close>

theorem specification_request:
  "(isl (fst (getOpenApiSpec st)) \<longleftrightarrow> st_openApiSpec st = None)
   \<and> (fst (getOpenApiSpec st) = Inl notGenerated \<longleftrightarrow> st_openApiSpec st = None)
   \<and> (st_openApiSpec st = Some spec \<longrightarrow> getOpenApiSpec st = (Inr spec, st))
   \<and> snd (getOpenApiSpec st) = st
   \<and> (runScans localeCompare options scans initialState = Some st' \<longrightarrow>
        (st_openApiSpec st' = None \<longleftrightarrow> (\<forall>s \<in> set scans. isl (fst s))))
   \<and> (scan localeCompare options (Inr found) now st \<noteq> None \<longleftrightarrow>
        (\<forall>mapping. o_categoryMapping options = Some mapping \<longrightarrow>
           (\<forall>controller \<in> set found. \<forall>k.
              findMappedCategory (st_added st) (c_category controller) mapping \<noteq> Some (Member k))))
   \<and> (typedControllers (applyCategoryMapping (st_added st) found (o_categoryMapping options))
         = Some controllers \<longrightarrow>
        scan localeCompare options (Inr found) now st
        = Some (Inr (),
                st\<lparr> st_controllers := controllers,
                    st_openApiSpec := Some (fst (generateFrom (st_added st) localeCompare controllers options)),
                    st_lastScanTime := Some now,
                    st_added := snd (generateFrom (st_added st) localeCompare controllers options) \<rparr>)
        \<and> fst (getOpenApiSpec
                 (st\<lparr> st_controllers := controllers,
                      st_openApiSpec := Some (fst (generateFrom (st_added st) localeCompare controllers options)),
                      st_lastScanTime := Some now,
                      st_added := snd (generateFrom (st_added st) localeCompare controllers options) \<rparr>))
            = Inr (fst (generateFrom (st_added st) localeCompare controllers options)))
   \<and> (o_categoryMapping options = None \<longrightarrow>
        typedControllers (applyCategoryMapping (st_added st) found (o_categoryMapping options)) = Some found)
   \<and> scan localeCompare options (Inl e) now st = Some (Inl e, st)
   \<and> initialize localeCompare options (Inl e) now st = Some (Inl e, st)"
proof -
  have 1: "isl (fst (getOpenApiSpec st)) \<longleftrightarrow> st_openApiSpec st = None"
    by (simp add: getOpenApiSpec_def split: option.splits)
  have 2: "fst (getOpenApiSpec st) = Inl notGenerated \<longleftrightarrow> st_openApiSpec st = None"
    by (simp add: getOpenApiSpec_def notGenerated_def split: option.splits)
  have 3: "st_openApiSpec st = Some spec \<longrightarrow> getOpenApiSpec st = (Inr spec, st)"
    by (simp add: getOpenApiSpec_def)
  have 4: "snd (getOpenApiSpec st) = st"
    by (simp add: getOpenApiSpec_def split: option.splits)
  have 5: "runScans localeCompare options scans initialState = Some st' \<longrightarrow>
        (st_openApiSpec st' = None \<longleftrightarrow> (\<forall>s \<in> set scans. isl (fst s)))"
    using runScans_none_iff [of initialState localeCompare options scans st']
    by (simp add: initialState_def)
  have "scan localeCompare options (Inr found) now st \<noteq> None
        \<longleftrightarrow> typedControllers (applyCategoryMapping (st_added st) found (o_categoryMapping options)) \<noteq> None"
    unfolding scan_scanned by (simp split: option.splits)
  also have "\<dots> \<longleftrightarrow> (\<forall>mapping. o_categoryMapping options = Some mapping \<longrightarrow>
           (\<forall>controller \<in> set found. \<forall>k.
              findMappedCategory (st_added st) (c_category controller) mapping \<noteq> Some (Member k)))"
  proof (cases "o_categoryMapping options")
    case None
    then show ?thesis by (simp add: applyCategoryMapping_def typed_unmapped)
  next
    case (Some mapping)
    then show ?thesis using typed_mapped_iff [of "st_added st" found mapping] by simp
  qed
  finally have 6: "scan localeCompare options (Inr found) now st \<noteq> None \<longleftrightarrow>
        (\<forall>mapping. o_categoryMapping options = Some mapping \<longrightarrow>
           (\<forall>controller \<in> set found. \<forall>k.
              findMappedCategory (st_added st) (c_category controller) mapping \<noteq> Some (Member k)))" .
  have 7: "typedControllers (applyCategoryMapping (st_added st) found (o_categoryMapping options))
         = Some controllers \<longrightarrow>
        scan localeCompare options (Inr found) now st
        = Some (Inr (),
                st\<lparr> st_controllers := controllers,
                    st_openApiSpec := Some (fst (generateFrom (st_added st) localeCompare controllers options)),
                    st_lastScanTime := Some now,
                    st_added := snd (generateFrom (st_added st) localeCompare controllers options) \<rparr>)
        \<and> fst (getOpenApiSpec
                 (st\<lparr> st_controllers := controllers,
                      st_openApiSpec := Some (fst (generateFrom (st_added st) localeCompare controllers options)),
                      st_lastScanTime := Some now,
                      st_added := snd (generateFrom (st_added st) localeCompare controllers options) \<rparr>))
            = Inr (fst (generateFrom (st_added st) localeCompare controllers options))"
    unfolding scan_scanned by (simp add: getOpenApiSpec_def)
  have 8: "o_categoryMapping options = None \<longrightarrow>
        typedControllers (applyCategoryMapping (st_added st) found (o_categoryMapping options)) = Some found"
    by (simp add: applyCategoryMapping_def typed_unmapped)
  have 9: "scan localeCompare options (Inl e) now st = Some (Inl e, st)"
    by (rule scan_failed)
  have 10: "initialize localeCompare options (Inl e) now st = Some (Inl e, st)"
    by (simp add: initialize_def scan_failed)
  from 1 2 3 4 5 6 7 8 9 10 show ?thesis by blast
qed

theorem specification_request_witness:
  "fst (getOpenApiSpec initialState) = Inl notGenerated
   \<and> runScans defaultCompare versionedOptions [(Inl (Error ''scan failed''), 1)] initialState
       = Some initialState
   \<and> (\<exists>st'. runScans defaultCompare versionedOptions
               [(Inl (Error ''scan failed''), 1), (Inr [adminController], 2)] initialState = Some st'
            \<and> st_openApiSpec st' \<noteq> None)
   \<and> (\<exists>st'. scan defaultCompare versionedOptions (Inr [adminController]) 2 initialState = Some (Inr (), st')
            \<and> fst (getOpenApiSpec st') = Inr (generate defaultCompare [adminController] versionedOptions))
   \<and> scan defaultCompare mappedOptions (Inr [authController, adminController]) 3 initialState \<noteq> None
   \<and> scan defaultCompare mappedOptions (Inr [objectController]) 3 initialState = None"
proof -
  let ?failed = "[(Inl (Error ''scan failed''), 1)] :: ((error + string ControllerMetadata list) \<times> nat) list"
  let ?both = "[(Inl (Error ''scan failed''), 1), (Inr [adminController], 2)]
                 :: ((error + string ControllerMetadata list) \<times> nat) list"
  let ?stored = "initialState\<lparr> st_controllers := [adminController],
      st_openApiSpec := Some (fst (generateFrom (st_added initialState) defaultCompare [adminController] versionedOptions)),
      st_lastScanTime := Some 2,
      st_added := snd (generateFrom (st_added initialState) defaultCompare [adminController] versionedOptions) \<rparr>"
  have nomap: "o_categoryMapping versionedOptions = None" by (simp add: versionedOptions_def)
  have a: "fst (getOpenApiSpec initialState) = Inl notGenerated"
    using specification_request [where st = initialState, THEN conjunct2, THEN conjunct1]
    by (simp add: initialState_def)
  have f: "scan defaultCompare versionedOptions (Inl (Error ''scan failed'')) 1 initialState
           = Some (Inl (Error ''scan failed''), initialState)"
    using specification_request [where st = initialState and localeCompare = defaultCompare
        and options = versionedOptions and e = "Error ''scan failed''" and now = 1]
    by blast
  have b: "runScans defaultCompare versionedOptions ?failed initialState = Some initialState"
    unfolding runScans.simps f by simp
  have t: "typedControllers (applyCategoryMapping (st_added initialState) [adminController]
             (o_categoryMapping versionedOptions)) = Some [adminController]"
    using specification_request [where st = initialState and options = versionedOptions
        and found = "[adminController]"] nomap
    by blast
  have s: "scan defaultCompare versionedOptions (Inr [adminController]) 2 initialState = Some (Inr (), ?stored)
           \<and> fst (getOpenApiSpec ?stored)
               = Inr (fst (generateFrom (st_added initialState) defaultCompare [adminController] versionedOptions))"
    using specification_request [where st = initialState and localeCompare = defaultCompare
        and options = versionedOptions and found = "[adminController]" and now = 2
        and controllers = "[adminController]"] t
    by blast
  have g: "fst (generateFrom (st_added initialState) defaultCompare [adminController] versionedOptions)
           = generate defaultCompare [adminController] versionedOptions"
    by (simp add: generate_def initialState_def)
  from s g have d: "\<exists>st'. scan defaultCompare versionedOptions (Inr [adminController]) 2 initialState = Some (Inr (), st')
            \<and> fst (getOpenApiSpec st') = Inr (generate defaultCompare [adminController] versionedOptions)"
    by auto
  have r: "runScans defaultCompare versionedOptions ?both initialState = Some ?stored"
    unfolding runScans.simps f using s by simp
  have "st_openApiSpec ?stored = None \<longleftrightarrow> (\<forall>s \<in> set ?both. isl (fst s))"
    using specification_request [where localeCompare = defaultCompare and options = versionedOptions
        and scans = ?both and st' = ?stored] r
    by blast
  then have "st_openApiSpec ?stored \<noteq> None" by simp
  with r have c: "\<exists>st'. runScans defaultCompare versionedOptions ?both initialState = Some st'
            \<and> st_openApiSpec st' \<noteq> None"
    by blast
  have m: "o_categoryMapping mappedOptions = Some overlappingMapping"
    by (simp add: mappedOptions_def versionedOptions_def)
  have l1: "findMappedCategory [] ''Admin - Auth'' overlappingMapping = Some (Text ''Administration'')"
      "findMappedCategory [] ''Admin'' overlappingMapping = Some (Text ''Administration'')"
      "findMappedCategory [] ''constructor'' overlappingMapping = Some (Member ''constructor'')"
    by (simp_all add: findMappedCategory_cases overlappingMapping_def objectPrototypeMembers_def
          norm_examples startsWith_def)
  have "\<forall>mapping. o_categoryMapping mappedOptions = Some mapping \<longrightarrow>
          (\<forall>controller \<in> set [authController, adminController]. \<forall>k.
             findMappedCategory (st_added initialState) (c_category controller) mapping \<noteq> Some (Member k))"
    by (simp add: m initialState_def authController_def adminController_def l1)
  then have h: "scan defaultCompare mappedOptions (Inr [authController, adminController]) 3 initialState \<noteq> None"
    using specification_request [where st = initialState and localeCompare = defaultCompare
        and options = mappedOptions and found = "[authController, adminController]" and now = 3,
        THEN conjunct2, THEN conjunct2, THEN conjunct2, THEN conjunct2, THEN conjunct2, THEN conjunct1]
    by blast
  have "\<not> (\<forall>mapping. o_categoryMapping mappedOptions = Some mapping \<longrightarrow>
          (\<forall>controller \<in> set [objectController]. \<forall>k.
             findMappedCategory (st_added initialState) (c_category controller) mapping \<noteq> Some (Member k)))"
    by (simp add: m initialState_def objectController_def adminController_def l1)
  then have i: "scan defaultCompare mappedOptions (Inr [objectController]) 3 initialState = None"
    using specification_request [where st = initialState and localeCompare = defaultCompare
        and options = mappedOptions and found = "[objectController]" and now = 3,
        THEN conjunct2, THEN conjunct2, THEN conjunct2, THEN conjunct2, THEN conjunct2, THEN conjunct1]
    by blast
  from a b c d h i show ?thesis by blast
qed

text \<open>
  C8 as stated fails in its last part: a failure of the controller scan is thrown again by
  scan and by initialize, and it is not the error of a missing specification.
\<close>

theorem scan_failure_propagates_counterexample:
  "scan defaultCompare versionedOptions (Inl (Error ''Failed to read the source files'')) 1 initialState
     = Some (Inl (Error ''Failed to read the source files''), initialState)
   \<and> initialize defaultCompare versionedOptions (Inl (Error ''Failed to read the source files'')) 1 initialState
     = Some (Inl (Error ''Failed to read the source files''), initialState)
   \<and> Error ''Failed to read the source files'' \<noteq> notGenerated"
  by (simp add: scan_def initialize_def notGenerated_def)

subsection \<open>Cyclic types\<close>

text \<open>
  C9. The resolution of a named type that is already in progress is the reference to it,
  without recursion. A declared named type that is not in progress resolves to an Object
  in which every property that refers to the type itself is that reference; below it,
  every named type of the chain in progress, the type itself included, resolves to its
  reference, so a cycle through other types ends as well. The recursion of the resolver
  is well-founded on every input: the resolution always terminates.
\<close>

theorem cyclic_types_resolve:
  "(n \<in> set inProgress \<longrightarrow> resolveType decls inProgress (HNamed n) = Some (TReference n))
   \<and> (n \<notin> set inProgress \<and> map_of decls n = Some members \<longrightarrow>
        resolveType decls inProgress (HNamed n)
        = Some (TObject (map (\<lambda>m. PropertyDescriptor (m_name m)
                                (if m_type m = HNamed n then Some (TReference n)
                                 else resolveType decls (n # inProgress) (m_type m))
                                (\<not> m_optional m \<and> \<not> m_hasInitializer m) (m_doc m)) members)))
   \<and> (k \<in> set (n # inProgress) \<longrightarrow> resolveType decls (n # inProgress) (HNamed k) = Some (TReference k))
   \<and> resolveType_dom (decls, inProgress, h)"
  by (auto simp: resolveType_total)

theorem cyclic_types_resolve_witness:
  "resolveType nodeDecls [] (HNamed ''TreeNode'')
     = Some (TObject [PropertyDescriptor ''label'' (Some (TPrimitive ''string'' None)) True None,
                      PropertyDescriptor ''parent'' (Some (TReference ''TreeNode'')) False None,
                      PropertyDescriptor ''children'' (Some (TArray (TReference ''TreeNode''))) True None])
   \<and> resolveType nodeDecls [] (HNamed ''Author'')
     = Some (TObject [PropertyDescriptor ''posts''
          (Some (TArray (TObject [PropertyDescriptor ''author'' (Some (TReference ''Author'')) True None])))
          True None])"
proof -
  have m: "map_of nodeDecls ''TreeNode'' = Some [MemberDecl ''label'' (HPrimitive ''string'' None) False False None,
                               MemberDecl ''parent'' (HNamed ''TreeNode'') True False None,
                               MemberDecl ''children'' (HArray (HNamed ''TreeNode'')) False False None]"
    by (simp add: nodeDecls_def)
  have a: "resolveType nodeDecls [] (HNamed ''TreeNode'')
     = Some (TObject [PropertyDescriptor ''label'' (Some (TPrimitive ''string'' None)) True None,
                      PropertyDescriptor ''parent'' (Some (TReference ''TreeNode'')) False None,
                      PropertyDescriptor ''children'' (Some (TArray (TReference ''TreeNode''))) True None])"
    using cyclic_types_resolve [of "''TreeNode''" "[]" nodeDecls _ "''TreeNode''", THEN conjunct2, THEN conjunct1] m
    by simp
  have b: "resolveType nodeDecls [] (HNamed ''Author'')
     = Some (TObject [PropertyDescriptor ''posts''
          (Some (TArray (TObject [PropertyDescriptor ''author'' (Some (TReference ''Author'')) True None])))
          True None])"
    by (simp add: nodeDecls_def)
  show ?thesis using a b by simp
qed

subsection \<open>Header parameters\<close>

text \<open>
  C10. The parameter list of an operation holds the path and query parameters of its route,
  in order, and nothing else: every parameter extracted with the header location (or the
  body location) is left out, and the operation of a route that has only header parameters
  has no \<open>parameters\<close> at all.
\<close>

theorem header_parameters_omitted:
  "createParameters params =
     (let kept = filter (\<lambda>p. pm_in p = InPath \<or> pm_in p = InQuery) params
      in if kept = [] then None else Some (map parameterObject kept))
   \<and> op_parameters (createOperation route controller) = createParameters (routeParams route)
   \<and> (\<forall>po \<in> set (parametersOf (createOperation route controller)).
         po_in po = InPath \<or> po_in po = InQuery)
   \<and> map po_name (parametersOf (createOperation route controller))
       = map pm_name (filter (\<lambda>p. pm_in p \<noteq> InHeader \<and> pm_in p \<noteq> InBody) (routeParams route))
   \<and> ((\<forall>p \<in> set (routeParams route). pm_in p = InHeader) \<longrightarrow>
         op_parameters (createOperation route controller) = None)"
proof -
  have a: "\<forall>po \<in> set (parametersOf (createOperation route controller)).
         po_in po = InPath \<or> po_in po = InQuery"
    by (auto simp: parametersOf_createOperation parameterObject_def)
  have f: "(\<lambda>p :: ParamMetadata. pm_in p \<noteq> InHeader \<and> pm_in p \<noteq> InBody)
           = (\<lambda>p. pm_in p = InPath \<or> pm_in p = InQuery)"
  proof
    fix p :: ParamMetadata show "(pm_in p \<noteq> InHeader \<and> pm_in p \<noteq> InBody) = (pm_in p = InPath \<or> pm_in p = InQuery)"
      by (cases "pm_in p") simp_all
  qed
  have b: "map po_name (parametersOf (createOperation route controller))
       = map pm_name (filter (\<lambda>p. pm_in p \<noteq> InHeader \<and> pm_in p \<noteq> InBody) (routeParams route))"
    unfolding f by (simp add: parametersOf_createOperation parameterObject_def o_def)
  have c: "(\<forall>p \<in> set (routeParams route). pm_in p = InHeader) \<longrightarrow>
         op_parameters (createOperation route controller) = None"
  proof
    assume h: "\<forall>p \<in> set (routeParams route). pm_in p = InHeader"
    then have "filter (\<lambda>p. pm_in p = InPath \<or> pm_in p = InQuery) (routeParams route) = []"
      by (auto simp: filter_empty_conv)
    then show "op_parameters (createOperation route controller) = None"
      by (simp add: op_parameters_createOperation createParameters_eq)
  qed
  show ?thesis using a b c createParameters_eq [of params] op_parameters_createOperation [of route controller]
    by blast
qed

theorem header_parameters_omitted_witness:
  "map pm_in (routeParams traced) = [InHeader]
   \<and> op_parameters (createOperation traced adminController) = None
   \<and> map pm_in (routeParams getById) = [InPath, InHeader]
   \<and> map po_name (parametersOf (createOperation getById adminController)) = [''id'']"
proof -
  have rt: "routeParams traced = extractParameters [traceParameter]"
    by (simp add: routeParams_def traced_def)
  have rg: "routeParams getById = extractParameters [idParameter, traceParameter]"
    by (simp add: routeParams_def getById_def)
  have a: "op_parameters (createOperation traced adminController) = None"
    using header_parameters_omitted [of "[]" traced adminController, THEN conjunct2, THEN conjunct2,
        THEN conjunct2, THEN conjunct2]
    by (simp add: rt extract_trace)
  have b: "map po_name (parametersOf (createOperation getById adminController)) = [''id'']"
    using header_parameters_omitted [of "[]" getById adminController, THEN conjunct2, THEN conjunct2,
        THEN conjunct2, THEN conjunct1]
    by (simp add: rg extract_id_trace)
  show ?thesis using a b by (simp add: rt rg extract_trace extract_id_trace)
qed

end
